theory Spec2Isabelle
  imports Main
begin

section \<open>Values, errors and sequencing\<close>

text \<open>
  The values stored as class attributes of the settings classes of
  \<^verbatim>\<open>stacks/settings.py\<close>: strings, booleans, integers and lists of strings.
  \<open>VMethod\<close> stands for the bound class methods \<^verbatim>\<open>get\<close>, \<^verbatim>\<open>cycle\<close> and
  \<^verbatim>\<open>length\<close> that every settings class inherits from \<^verbatim>\<open>Settings\<close>.
\<close>

datatype val =
    VStr string
  | VBool bool
  | VInt int
  | VList "string list"
  | VMethod string

text \<open>
  The exceptions the modelled code raises. \<open>KeyError c n\<close> carries the class name and
  the key of the message \<^verbatim>\<open>Not supported by 'c': 'n'.\<close>; \<open>Raised msg\<close> is an
  exception coming out of a library call, with \<open>msg\<close> the text \<^verbatim>\<open>str(error)\<close>.
\<close>

datatype error =
    KeyError string string
  | TypeError
  | RuntimeError
  | AttributeError
  | IndexError
  | StopIteration
  | Raised string

text \<open>Running a statement after another one: the first exception ends the run.\<close>

fun seq :: "error + 'a \<Rightarrow> ('a \<Rightarrow> error + 'b) \<Rightarrow> error + 'b" where
  "seq (Inl e) f = Inl e"
| "seq (Inr x) f = f x"

text \<open>Python truthiness of a value (\<^verbatim>\<open>if value:\<close>).\<close>

fun truthy :: "val \<Rightarrow> bool" where
  "truthy (VStr s) = (s \<noteq> [])"
| "truthy (VBool b) = b"
| "truthy (VInt i) = (i \<noteq> 0)"
| "truthy (VList xs) = (xs \<noteq> [])"
| "truthy (VMethod m) = True"

text \<open>\<^verbatim>\<open>len(value)\<close>: lists and strings have a length, the other values have none
  and cannot be iterated over.\<close>

fun py_len :: "val \<Rightarrow> error + nat" where
  "py_len (VList xs) = Inr (length xs)"
| "py_len (VStr s) = Inr (length s)"
| "py_len _ = Inl TypeError"

section \<open>Settings: class-attribute lookup with a default\<close>

text \<open>
  A class is its name and the namespaces Python searches for a class attribute: the
  class's own attributes first, then those of its bases.
\<close>

type_synonym namespace = "(string \<times> val) list"

record settings_class =
  cls_name :: string
  cls_mro :: "namespace list"

fun lookup_attr :: "namespace list \<Rightarrow> string \<Rightarrow> val option" where
  "lookup_attr [] name = None"
| "lookup_attr (d # ds) name =
     (case map_of d name of Some v \<Rightarrow> Some v | None \<Rightarrow> lookup_attr ds name)"

definition hasattr :: "settings_class \<Rightarrow> string \<Rightarrow> bool" where
  "hasattr c name = (lookup_attr (cls_mro c) name \<noteq> None)"

definition getattr :: "settings_class \<Rightarrow> string \<Rightarrow> error + val" where
  "getattr c name =
     (case lookup_attr (cls_mro c) name of
        Some v \<Rightarrow> Inr v
      | None \<Rightarrow> Inl AttributeError)"

text \<open>\<^verbatim>\<open>Settings.get\<close>: exact name, then \<^verbatim>\<open>default\<close>, then \<^verbatim>\<open>KeyError\<close>.\<close>

definition Settings_get :: "settings_class \<Rightarrow> string \<Rightarrow> error + val" where
  "Settings_get c name =
     (if hasattr c name then getattr c name
      else if hasattr c ''default'' then getattr c ''default''
      else Inl (KeyError (cls_name c) name))"

text \<open>
  \<^verbatim>\<open>itertools.cycle\<close> over a list: the saved items and the number of items handed
  out so far. \<^verbatim>\<open>next\<close> on a cycle over no items raises \<^verbatim>\<open>StopIteration\<close>.
\<close>

datatype cycle_iter = Cycle "string list" nat

fun next_cycle :: "cycle_iter \<Rightarrow> error + (string \<times> cycle_iter)" where
  "next_cycle (Cycle items k) =
     (if items = [] then Inl StopIteration
      else Inr (items ! (k mod length items), Cycle items (Suc k)))"

text \<open>\<^verbatim>\<open>Settings.cycle\<close> and \<^verbatim>\<open>Settings.length\<close>: the value must be a list.\<close>

definition Settings_cycle :: "settings_class \<Rightarrow> string \<Rightarrow> error + cycle_iter" where
  "Settings_cycle c name =
     seq (Settings_get c name)
       (\<lambda>v. case v of VList xs \<Rightarrow> Inr (Cycle xs 0) | _ \<Rightarrow> Inl TypeError)"

definition Settings_length :: "settings_class \<Rightarrow> string \<Rightarrow> error + nat" where
  "Settings_length c name =
     seq (Settings_get c name)
       (\<lambda>v. case v of VList xs \<Rightarrow> Inr (length xs) | _ \<Rightarrow> Inl TypeError)"

text \<open>
  The attributes every settings class inherits from \<^verbatim>\<open>Settings\<close>. The attributes
  Python gives to every class by itself (\<^verbatim>\<open>__doc__\<close>, \<^verbatim>\<open>__name__\<close> and the
  like) are left out; no statement below is about such a name.
\<close>

definition Settings_namespace :: namespace where
  "Settings_namespace =
     [(''get'', VMethod ''get''), (''cycle'', VMethod ''cycle''), (''length'', VMethod ''length'')]"

definition settings :: "string \<Rightarrow> namespace \<Rightarrow> settings_class" where
  "settings name own = \<lparr>cls_name = name, cls_mro = [own, Settings_namespace]\<rparr>"

definition VpcCidrSettings :: settings_class where
  "VpcCidrSettings = settings ''VpcCidrSettings''
     [(''mainnet'', VStr ''10.0.0.0/16''),
      (''testnet'', VStr ''10.1.0.0/16''),
      (''devnet'', VStr ''10.11.0.0/16'')]"

definition SharedCacheDatabaseSettings :: settings_class where
  "SharedCacheDatabaseSettings = settings ''SharedCacheDatabaseSettings''
     [(''mainnet'', VBool True),
      (''testnet'', VBool True),
      (''devnet'', VBool False)]"

definition PublicSubnetCidrSettings :: settings_class where
  "PublicSubnetCidrSettings = settings ''PublicSubnetCidrSettings''
     [(''mainnet'', VList [''10.0.0.0/19'', ''10.0.32.0/19'', ''10.0.64.0/19'']),
      (''testnet'', VList [''10.1.0.0/19'', ''10.1.32.0/19'']),
      (''devnet'', VList [''10.11.0.0/19'', ''10.11.32.0/19''])]"

definition PrivateSubnetCidrSettings :: settings_class where
  "PrivateSubnetCidrSettings = settings ''PrivateSubnetCidrSettings''
     [(''mainnet'', VList [''10.0.96.0/19'', ''10.0.128.0/19'', ''10.0.160.0/19'']),
      (''testnet'', VList [''10.1.64.0/19'', ''10.1.96.0/19'']),
      (''devnet'', VList [''10.11.64.0/19'', ''10.11.96.0/19''])]"

definition AvailabilityZonesSettings :: settings_class where
  "AvailabilityZonesSettings = settings ''AvailabilityZonesSettings''
     [(''mainnet'', VList [''a'', ''b'', ''c'']),
      (''testnet'', VList [''a'', ''b'']),
      (''devnet'', VList [''a'', ''b''])]"

definition DatabaseEncryptionSettings :: settings_class where
  "DatabaseEncryptionSettings = settings ''DatabaseEncryptionSettings''
     [(''proddb'', VBool True),
      (''testnet'', VBool True),
      (''default'', VBool False)]"

definition MinNodesSettings :: settings_class where
  "MinNodesSettings = settings ''MinNodesSettings''
     [(''proddb'', VInt 4),
      (''demodb'', VInt 2),
      (''default'', VInt 1)]"

definition MaxNodesSettings :: settings_class where
  "MaxNodesSettings = settings ''MaxNodesSettings''
     [(''proddb'', VInt 2),
      (''demodb'', VInt 1),
      (''default'', VInt 1)]"

definition DatabaseSnapshotName :: settings_class where
  "DatabaseSnapshotName = settings ''DatabaseSnapshotName''
     [(''mainnet'', VStr ''latest''),
      (''testnet'', VStr ''latest''),
      (''devnet'', VStr ''latest'')]"

section \<open>Strings\<close>

text \<open>\<^verbatim>\<open>sub in s\<close> on strings: \<open>sub\<close> occurs in \<open>s\<close> as a contiguous run.\<close>

fun starts_with :: "string \<Rightarrow> string \<Rightarrow> bool" where
  "starts_with s [] = True"
| "starts_with [] (p # ps) = False"
| "starts_with (c # cs) (p # ps) = (c = p \<and> starts_with cs ps)"

fun str_contains :: "string \<Rightarrow> string \<Rightarrow> bool" where
  "str_contains [] sub = (sub = [])"
| "str_contains (c # cs) sub = (starts_with (c # cs) sub \<or> str_contains cs sub)"

text \<open>\<^verbatim>\<open>sep.join(parts)\<close>.\<close>

fun join :: "string \<Rightarrow> string list \<Rightarrow> string" where
  "join sep [] = []"
| "join sep [x] = x"
| "join sep (x # y # ys) = x @ sep @ join sep (y # ys)"

text \<open>\<^verbatim>\<open>s.split(sep)\<close> for a one-character separator: every separator ends a part.\<close>

fun split :: "char \<Rightarrow> string \<Rightarrow> string list" where
  "split sep [] = [[]]"
| "split sep (c # cs) =
     (if c = sep then [] # split sep cs
      else (case split sep cs of
              [] \<Rightarrow> [[c]]
            | part # parts \<Rightarrow> (c # part) # parts))"

text \<open>
  \<^verbatim>\<open>str(n)\<close> for a natural number: its decimal digits. \<open>digit\<close> is only applied to
  numbers below ten.
\<close>

definition digit :: "nat \<Rightarrow> char" where
  "digit d = ''0123456789'' ! d"

fun str_nat :: "nat \<Rightarrow> string" where
  "str_nat n = (if n < 10 then [digit n] else str_nat (n div 10) @ [digit (n mod 10)])"

declare str_nat.simps [simp del]

section \<open>The Beanstalk stack: autoscaling options\<close>

text \<open>
  \<^verbatim>\<open>BeanstalkStack._get_autoscaling_options\<close>: the dictionary with the keys
  \<^verbatim>\<open>MinSize\<close> and \<^verbatim>\<open>MaxSize\<close>, read from the settings of the environment.
\<close>

definition get_autoscaling_options :: "string \<Rightarrow> error + (string \<times> val) list" where
  "get_autoscaling_options environment =
     seq (Settings_get MinNodesSettings environment) (\<lambda>min_size.
     seq (Settings_get MaxNodesSettings environment) (\<lambda>max_size.
       Inr [(''MinSize'', min_size), (''MaxSize'', max_size)]))"

section \<open>The database stack: restore from a snapshot or create from scratch\<close>

text \<open>
  One entry of \<^verbatim>\<open>response["DBSnapshots"]\<close>; only \<^verbatim>\<open>Status\<close> is read.
  The client's \<^verbatim>\<open>describe_db_snapshots\<close> is a parameter: given the snapshot
  identifier it returns the listed snapshots, or fails with an exception whose text
  \<^verbatim>\<open>str(error)\<close> is the string on the left.
\<close>

record snapshot =
  DBSnapshotIdentifier :: string
  Status :: string

type_synonym rds_client = "string \<Rightarrow> string + snapshot list"

text \<open>
  The loop over the listed snapshots returns in its first iteration, whatever the
  status of the first snapshot is.
\<close>

fun first_snapshot_available :: "snapshot list \<Rightarrow> bool" where
  "first_snapshot_available [] = False"
| "first_snapshot_available (s # ss) = (if Status s = ''available'' then True else False)"

text \<open>
  \<^verbatim>\<open>DatabaseStack._snapshot_exists\<close>. The snapshot name of every configured
  network is a string; a value of another kind is no identifier the client accepts
  (\<open>TypeError\<close>), and so is no part of \<^verbatim>\<open>":".join(...)\<close> either.
\<close>

definition snapshot_exists :: "string \<Rightarrow> rds_client \<Rightarrow> error + bool" where
  "snapshot_exists network client =
     seq (Settings_get DatabaseSnapshotName network) (\<lambda>v.
       case v of
         VStr name \<Rightarrow>
           (case client name of
              Inl msg \<Rightarrow>
                if str_contains msg ''DBSnapshotNotFound'' then Inr False
                else Inl (Raised msg)
            | Inr snapshots \<Rightarrow> Inr (first_snapshot_available snapshots))
       | _ \<Rightarrow> Inl TypeError)"

definition get_snapshot_arn :: "string \<Rightarrow> string \<Rightarrow> string \<Rightarrow> error + string" where
  "get_snapshot_arn region account network =
     seq (Settings_get DatabaseSnapshotName network) (\<lambda>v.
       case v of
         VStr name \<Rightarrow> Inr (join '':'' [''arn'', ''aws'', ''rds'', region, account, ''snapshot'', name])
       | _ \<Rightarrow> Inl TypeError)"

text \<open>
  The database instance a stack holds: restored from the snapshot with the given ARN,
  or created from scratch with the given credentials secret.
\<close>

datatype db_instance =
    DatabaseInstanceFromSnapshot string string
  | DatabaseInstance string string

record database_stack =
  ds_application :: string
  ds_network :: string
  ds_database :: string
  ds_region :: string
  ds_account :: string

definition db_identifier :: "database_stack \<Rightarrow> string" where
  "db_identifier s = ds_application s @ ''-'' @ ds_network s @ ''-'' @ ds_database s @ ''-db''"

definition create_db_from_snapshot :: "database_stack \<Rightarrow> error + db_instance" where
  "create_db_from_snapshot s =
     seq (get_snapshot_arn (ds_region s) (ds_account s) (ds_network s)) (\<lambda>arn.
       Inr (DatabaseInstanceFromSnapshot (db_identifier s) arn))"

definition create_db_from_scratch :: "database_stack \<Rightarrow> error + db_instance" where
  "create_db_from_scratch s =
     Inr (DatabaseInstance (db_identifier s)
       (ds_application s @ ''-'' @ ds_network s @ ''-'' @ ds_database s @ ''-database-credentials''))"

definition create_db :: "database_stack \<Rightarrow> rds_client \<Rightarrow> error + db_instance" where
  "create_db s client =
     seq (snapshot_exists (ds_network s) client) (\<lambda>found.
       if found then create_db_from_snapshot s else create_db_from_scratch s)"

fun from_snapshot :: "error + db_instance \<Rightarrow> bool" where
  "from_snapshot (Inr (DatabaseInstanceFromSnapshot i arn)) = True"
| "from_snapshot _ = False"

fun from_scratch :: "error + db_instance \<Rightarrow> bool" where
  "from_scratch (Inr (DatabaseInstance i secret)) = True"
| "from_scratch _ = False"

text \<open>
  \<^verbatim>\<open>DatabaseStack._snapshot_exists\<close> once more, with the calls of
  \<^verbatim>\<open>describe_db_snapshots\<close> counted: \<open>service k\<close> is the client as it answers after
  \<open>k\<close> earlier calls, and the result comes with the number of calls made so far. The
  one call stands inside the \<^verbatim>\<open>try\<close>; no branch of the handler calls again.
\<close>

definition snapshot_exists_counted ::
  "string \<Rightarrow> (nat \<Rightarrow> rds_client) \<Rightarrow> nat \<Rightarrow> (error + bool) \<times> nat" where
  "snapshot_exists_counted network service calls =
     (case Settings_get DatabaseSnapshotName network of
        Inl e \<Rightarrow> (Inl e, calls)
      | Inr v \<Rightarrow>
          (case v of
             VStr name \<Rightarrow>
               (case service calls name of
                  Inl msg \<Rightarrow>
                    (if str_contains msg ''DBSnapshotNotFound'' then Inr False
                     else Inl (Raised msg),
                     Suc calls)
                | Inr snapshots \<Rightarrow> (Inr (first_snapshot_available snapshots), Suc calls))
           | _ \<Rightarrow> (Inl TypeError, calls)))"




section \<open>The network stack\<close>

text \<open>
  The resources the network stack declares. A resource is known by its construct
  identifier, which also stands for the identifier the provider gives it
  (\<^verbatim>\<open>vpc.vpc_id\<close>, \<^verbatim>\<open>subnet.subnet_id\<close>, \<^verbatim>\<open>eip.attr_allocation_id\<close>).
\<close>

record vpc =
  vpc_id :: string
  vpc_cidr :: val
  max_azs :: nat

record subnet =
  subnet_id :: string
  cidr_block :: string
  subnet_vpc_id :: string
  availability_zone :: string

record nat_gateway =
  nat_id :: string
  allocation_id :: string
  nat_subnet_id :: string

record network_stack =
  ns_application :: string
  ns_network :: string
  ns_region :: string
  ns_vpc :: "vpc option"
  ns_public_subnets :: "subnet list"
  ns_private_subnets :: "subnet list"
  ns_nat_gateways :: "nat_gateway list"
  ns_igw :: "string option"
  ns_igw_attachments :: "string list"
  ns_eip :: "string list"
  ns_vpc_endpoints :: "string list"

definition NetworkStack :: "string \<Rightarrow> string \<Rightarrow> string \<Rightarrow> network_stack" where
  "NetworkStack application network region =
     \<lparr>ns_application = application, ns_network = network, ns_region = region,
      ns_vpc = None, ns_public_subnets = [], ns_private_subnets = [],
      ns_nat_gateways = [], ns_igw = None, ns_igw_attachments = [], ns_eip = [],
      ns_vpc_endpoints = []\<rparr>"

definition resource_prefix :: "network_stack \<Rightarrow> string" where
  "resource_prefix s = ns_application s @ ''-'' @ ns_network s"

definition create_vpc :: "network_stack \<Rightarrow> error + network_stack" where
  "create_vpc s =
     seq (Settings_get VpcCidrSettings (ns_network s)) (\<lambda>cidr.
     seq (Settings_length AvailabilityZonesSettings (ns_network s)) (\<lambda>azs.
       Inr (s\<lparr>ns_vpc := Some \<lparr>vpc_id = resource_prefix s @ ''-vpc'', vpc_cidr = cidr,
                               max_azs = azs\<rparr>\<rparr>)))"

text \<open>
  The loop shared by \<^verbatim>\<open>_create_public_subnets\<close> and \<^verbatim>\<open>_create_private_subnets\<close>,
  which differ in the settings they read and in the word \<open>public\<close> or \<open>private\<close> of the
  identifiers. \<open>index\<close> is the index \<^verbatim>\<open>enumerate\<close> gives to the next block and
  \<open>created\<close> is the list the loop appends to. In each round: the check of the first
  two dotted components, then the new subnet, whose arguments read the VPC and take
  the next availability zone.
\<close>

fun create_subnets ::
  "string \<Rightarrow> string \<Rightarrow> vpc option \<Rightarrow> string \<Rightarrow> nat \<Rightarrow> string list \<Rightarrow> cycle_iter
     \<Rightarrow> subnet list \<Rightarrow> error + subnet list" where
  "create_subnets name region v cidr index [] availability_zones created = Inr created"
| "create_subnets name region v cidr index (block # blocks) availability_zones created =
     (if take 2 (split CHR ''.'' block) \<noteq> take 2 (split CHR ''.'' cidr) then Inl RuntimeError
      else case v of
        None \<Rightarrow> Inl AttributeError
      | Some the_vpc \<Rightarrow>
          seq (next_cycle availability_zones) (\<lambda>(zone, availability_zones').
            create_subnets name region v cidr (index + 1) blocks availability_zones'
              (created @ [\<lparr>subnet_id = name @ str_nat (index + 1), cidr_block = block,
                           subnet_vpc_id = vpc_id the_vpc,
                           availability_zone = region @ zone\<rparr>])))"

text \<open>
  The settings of one network: the VPC block must be a string and the subnet blocks a
  list for the loop to run; \<^verbatim>\<open>Settings.cycle\<close> has refused everything but a
  list of zones before.
\<close>

definition create_public_subnets :: "network_stack \<Rightarrow> error + network_stack" where
  "create_public_subnets s =
     seq (Settings_get VpcCidrSettings (ns_network s)) (\<lambda>cidr.
     seq (Settings_get PublicSubnetCidrSettings (ns_network s)) (\<lambda>cidr_blocks.
     seq (Settings_cycle AvailabilityZonesSettings (ns_network s)) (\<lambda>availability_zones.
       case (cidr, cidr_blocks) of
         (VStr c, VList blocks) \<Rightarrow>
           seq (create_subnets (resource_prefix s @ ''-public-subnet-'') (ns_region s)
                  (ns_vpc s) c 0 blocks availability_zones (ns_public_subnets s))
             (\<lambda>subnets. Inr (s\<lparr>ns_public_subnets := subnets\<rparr>))
       | _ \<Rightarrow> Inl TypeError)))"

definition create_private_subnets :: "network_stack \<Rightarrow> error + network_stack" where
  "create_private_subnets s =
     seq (Settings_get VpcCidrSettings (ns_network s)) (\<lambda>cidr.
     seq (Settings_get PrivateSubnetCidrSettings (ns_network s)) (\<lambda>cidr_blocks.
     seq (Settings_cycle AvailabilityZonesSettings (ns_network s)) (\<lambda>availability_zones.
       case (cidr, cidr_blocks) of
         (VStr c, VList blocks) \<Rightarrow>
           seq (create_subnets (resource_prefix s @ ''-private-subnet-'') (ns_region s)
                  (ns_vpc s) c 0 blocks availability_zones (ns_private_subnets s))
             (\<lambda>subnets. Inr (s\<lparr>ns_private_subnets := subnets\<rparr>))
       | _ \<Rightarrow> Inl TypeError)))"

definition create_internet_gateway :: "network_stack \<Rightarrow> error + network_stack" where
  "create_internet_gateway s =
     (if ns_public_subnets s \<noteq> [] \<and> ns_vpc s = None then Inl AttributeError
      else Inr (s\<lparr>ns_igw := Some (resource_prefix s @ ''-internet-gateway''),
                  ns_igw_attachments :=
                    map (\<lambda>(index, sn). resource_prefix s @ ''-igw-attachment-'' @ str_nat (index + 1))
                      (enumerate 0 (ns_public_subnets s))\<rparr>))"

text \<open>One address per item of the private blocks; only their number is used.\<close>

definition create_eip :: "network_stack \<Rightarrow> error + network_stack" where
  "create_eip s =
     seq (Settings_get PrivateSubnetCidrSettings (ns_network s)) (\<lambda>cidr_blocks.
     seq (py_len cidr_blocks) (\<lambda>n.
       Inr (s\<lparr>ns_eip := ns_eip s @
              map (\<lambda>index. resource_prefix s @ ''-nat-ip-'' @ str_nat (index + 1)) [0..<n]\<rparr>)))"

text \<open>
  One NAT gateway per private subnet, in the public subnet and with the address of the
  same index: an index past the end of either list raises \<^verbatim>\<open>IndexError\<close>.
\<close>

fun nat_gateways ::
  "string \<Rightarrow> string list \<Rightarrow> subnet list \<Rightarrow> nat \<Rightarrow> subnet list \<Rightarrow> nat_gateway list
     \<Rightarrow> error + nat_gateway list" where
  "nat_gateways name eip public index [] created = Inr created"
| "nat_gateways name eip public index (sn # private) created =
     (if \<not> index < length eip then Inl IndexError
      else if \<not> index < length public then Inl IndexError
      else nat_gateways name eip public (index + 1) private
             (created @ [\<lparr>nat_id = name @ str_nat (index + 1), allocation_id = eip ! index,
                          nat_subnet_id = subnet_id (public ! index)\<rparr>]))"

definition create_nat_gateways :: "network_stack \<Rightarrow> error + network_stack" where
  "create_nat_gateways s =
     (if ns_eip s = [] then Inl AttributeError
      else seq (nat_gateways (resource_prefix s @ ''-nat-'') (ns_eip s) (ns_public_subnets s) 0
                  (ns_private_subnets s) (ns_nat_gateways s))
             (\<lambda>nats. Inr (s\<lparr>ns_nat_gateways := nats\<rparr>)))"

definition create_vpc_endpoints :: "network_stack \<Rightarrow> error + network_stack" where
  "create_vpc_endpoints s =
     (if ns_vpc s = None then Inl AttributeError
      else if ns_private_subnets s = [] then Inl AttributeError
      else Inr (s\<lparr>ns_vpc_endpoints :=
                    [resource_prefix s @ ''-eb-health-vpc-endpoint'',
                     resource_prefix s @ ''-eb-vpc-endpoint'',
                     resource_prefix s @ ''-s3-vpc-endpoint'',
                     resource_prefix s @ ''-redis-vpc-endpoint'']\<rparr>))"

definition NetworkStack_deploy :: "network_stack \<Rightarrow> error + network_stack" where
  "NetworkStack_deploy s =
     (if ns_application s = [] then Inl AttributeError
      else if ns_network s = [] then Inl AttributeError
      else if ns_region s = [] then Inl AttributeError
      else
        seq (create_vpc s) (\<lambda>s.
        seq (create_public_subnets s) (\<lambda>s.
        seq (create_private_subnets s) (\<lambda>s.
        seq (create_internet_gateway s) (\<lambda>s.
        seq (create_eip s) (\<lambda>s.
        seq (create_nat_gateways s) (\<lambda>s.
        create_vpc_endpoints s)))))))"

text \<open>The outputs a stack publishes: an export name and the exported value.\<close>

record cfn_output =
  export_name :: string
  output_value :: string

definition names_prefix :: "string \<Rightarrow> string \<Rightarrow> string" where
  "names_prefix application network = application @ ''::'' @ network"

definition subnet_export_name :: "string \<Rightarrow> string \<Rightarrow> string \<Rightarrow> nat \<Rightarrow> string" where
  "subnet_export_name application network kind index =
     names_prefix application network @ ''::subnet::'' @ kind @ ''::'' @ str_nat (index + 1) @ ''::id''"

definition NetworkStack_export :: "network_stack \<Rightarrow> error + cfn_output list" where
  "NetworkStack_export s =
     (case ns_vpc s of
        None \<Rightarrow> Inl AttributeError
      | Some v \<Rightarrow>
          Inr ([\<lparr>export_name = names_prefix (ns_application s) (ns_network s) @ ''::vpc::id'',
                  output_value = vpc_id v\<rparr>] @
               map (\<lambda>(index, sn).
                      \<lparr>export_name = subnet_export_name (ns_application s) (ns_network s) ''public'' index,
                       output_value = subnet_id sn\<rparr>)
                 (enumerate 0 (ns_public_subnets s)) @
               map (\<lambda>(index, sn).
                      \<lparr>export_name = subnet_export_name (ns_application s) (ns_network s) ''private'' index,
                       output_value = subnet_id sn\<rparr>)
                 (enumerate 0 (ns_private_subnets s))))"

section \<open>The network-protected stack\<close>

text \<open>\<^verbatim>\<open>Fn.import_value(name)\<close>: the value another stack exported under the name.\<close>

datatype token = ImportValue string

fun import_name :: "token \<Rightarrow> string" where
  "import_name (ImportValue name) = name"

record imported_vpc =
  iv_id :: string
  iv_vpc_id :: token
  iv_vpc_cidr_block :: val
  iv_availability_zones :: val
  iv_public_subnet_ids :: "token list"
  iv_private_subnet_ids :: "token list"

record imported_subnet =
  is_id :: string
  is_subnet_id :: token
  is_availability_zone :: string

record protected_stack =
  ps_application :: string
  ps_network :: string
  ps_region :: string
  ps_vpc :: "imported_vpc option"
  ps_public_subnets :: "imported_subnet list"
  ps_private_subnets :: "imported_subnet list"

definition NetworkProtectedStack :: "string \<Rightarrow> string \<Rightarrow> string \<Rightarrow> protected_stack" where
  "NetworkProtectedStack application network region =
     \<lparr>ps_application = application, ps_network = network, ps_region = region,
      ps_vpc = None, ps_public_subnets = [], ps_private_subnets = []\<rparr>"

definition import_vpc :: "protected_stack \<Rightarrow> error + protected_stack" where
  "import_vpc s =
     (if ps_network s = [] then Inl AttributeError
      else
        seq (Settings_get VpcCidrSettings (ps_network s)) (\<lambda>cidr.
        seq (Settings_get AvailabilityZonesSettings (ps_network s)) (\<lambda>zones.
        seq (seq (Settings_get PublicSubnetCidrSettings (ps_network s)) py_len) (\<lambda>n_public.
        seq (seq (Settings_get PrivateSubnetCidrSettings (ps_network s)) py_len) (\<lambda>n_private.
          Inr (s\<lparr>ps_vpc := Some
            \<lparr>iv_id = ps_application s @ ''-'' @ ps_network s @ ''-vpc'',
             iv_vpc_id = ImportValue (names_prefix (ps_application s) (ps_network s) @ ''::vpc::id''),
             iv_vpc_cidr_block = cidr,
             iv_availability_zones = zones,
             iv_public_subnet_ids =
               map (\<lambda>index. ImportValue
                      (subnet_export_name (ps_application s) (ps_network s) ''public'' index))
                 [0..<n_public],
             iv_private_subnet_ids =
               map (\<lambda>index. ImportValue
                      (subnet_export_name (ps_application s) (ps_network s) ''private'' index))
                 [0..<n_private]\<rparr>\<rparr>))))))"

text \<open>
  The list comprehension of \<^verbatim>\<open>_import_public_subnets\<close> and
  \<^verbatim>\<open>_import_private_subnets\<close>, over the indices of \<^verbatim>\<open>range(n)\<close>: each
  subnet takes the next availability zone.
\<close>

fun import_subnets ::
  "string \<Rightarrow> string \<Rightarrow> string \<Rightarrow> string \<Rightarrow> nat list \<Rightarrow> cycle_iter
     \<Rightarrow> error + imported_subnet list" where
  "import_subnets application network kind region [] availability_zones = Inr []"
| "import_subnets application network kind region (index # indices) availability_zones =
     seq (next_cycle availability_zones) (\<lambda>(zone, availability_zones').
     seq (import_subnets application network kind region indices availability_zones') (\<lambda>subnets.
       Inr (\<lparr>is_id = subnet_export_name application network kind index,
             is_subnet_id = ImportValue (subnet_export_name application network kind index),
             is_availability_zone = region @ zone\<rparr> # subnets)))"

definition import_public_subnets :: "protected_stack \<Rightarrow> error + protected_stack" where
  "import_public_subnets s =
     (if ps_region s = [] then Inl AttributeError
      else if ps_network s = [] then Inl AttributeError
      else if ps_application s = [] then Inl AttributeError
      else
        seq (Settings_cycle AvailabilityZonesSettings (ps_network s)) (\<lambda>availability_zones.
        seq (Settings_length PublicSubnetCidrSettings (ps_network s)) (\<lambda>n.
        seq (import_subnets (ps_application s) (ps_network s) ''public'' (ps_region s) [0..<n]
               availability_zones)
          (\<lambda>subnets. Inr (s\<lparr>ps_public_subnets := subnets\<rparr>)))))"

definition import_private_subnets :: "protected_stack \<Rightarrow> error + protected_stack" where
  "import_private_subnets s =
     seq (Settings_cycle AvailabilityZonesSettings (ps_network s)) (\<lambda>availability_zones.
     seq (Settings_length PrivateSubnetCidrSettings (ps_network s)) (\<lambda>n.
     seq (import_subnets (ps_application s) (ps_network s) ''private'' (ps_region s) [0..<n]
            availability_zones)
       (\<lambda>subnets. Inr (s\<lparr>ps_private_subnets := subnets\<rparr>))))"

definition NetworkProtectedStack_load :: "protected_stack \<Rightarrow> error + protected_stack" where
  "NetworkProtectedStack_load s =
     (if ps_application s = [] then Inl AttributeError
      else if ps_network s = [] then Inl AttributeError
      else if ps_region s = [] then Inl AttributeError
      else
        seq (import_vpc s) (\<lambda>s.
        seq (import_public_subnets s) (\<lambda>s.
        import_private_subnets s)))"

text \<open>Every name the stack has passed to \<^verbatim>\<open>Fn.import_value\<close>, in the order of the calls.\<close>

definition imported_names :: "protected_stack \<Rightarrow> string list" where
  "imported_names s =
     (case ps_vpc s of
        None \<Rightarrow> []
      | Some v \<Rightarrow>
          import_name (iv_vpc_id v) # map import_name (iv_public_subnet_ids v) @
          map import_name (iv_private_subnet_ids v)) @
     map (\<lambda>sn. import_name (is_subnet_id sn)) (ps_public_subnets s) @
     map (\<lambda>sn. import_name (is_subnet_id sn)) (ps_private_subnets s)"

section \<open>The Beanstalk stack: the Redis database\<close>

text \<open>
  \<^verbatim>\<open>BeanstalkStack._get_redis_db\<close>. The digest function of the standard
  library is a parameter: \<open>sha256 s\<close> is the number
  \<^verbatim>\<open>int(hashlib.sha256(s.encode("utf-8")).hexdigest(), 16)\<close>.
  \<^verbatim>\<open>text[-1]\<close> raises \<^verbatim>\<open>IndexError\<close> on an empty string.
\<close>

definition last_char :: "string \<Rightarrow> error + string" where
  "last_char text = (case rev text of [] \<Rightarrow> Inl IndexError | c # cs \<Rightarrow> Inr [c])"

definition get_redis_db :: "(string \<Rightarrow> nat) \<Rightarrow> string \<Rightarrow> string \<Rightarrow> error + string" where
  "get_redis_db sha256 network environment =
     (if network = [] then Inl AttributeError
      else if environment = [] then Inl AttributeError
      else
        seq (Settings_get SharedCacheDatabaseSettings network) (\<lambda>shared.
          if truthy shared then Inr ''0''
          else last_char (str_nat (sha256 environment mod 10 ^ 8))))"

text \<open>A digest function to run the model on: the length of the text.\<close>

definition toy_digest :: "string \<Rightarrow> nat" where
  "toy_digest text = length text"

section \<open>The orchestrator\<close>

datatype stack =
    Registry | Network | Security | Bastion | Application
  | Media | Cache | Opensearch | Database | Environment

text \<open>What \<^verbatim>\<open>app.py\<close> does to the stacks, statement by statement.\<close>

datatype event =
    Instantiate stack
  | Load stack
  | Deploy stack
  | Export stack
  | AddDependency stack stack

definition run :: "stack \<Rightarrow> event list" where
  "run s = [Instantiate s, Load s, Deploy s, Export s]"

definition app :: "event list" where
  "app =
     run Registry @ run Network @ run Security @ run Bastion @ run Application @
     run Media @ run Cache @ run Opensearch @ run Database @ run Environment @
     [AddDependency Registry Network,
      AddDependency Bastion Network,
      AddDependency Security Network,
      AddDependency Database Network,
      AddDependency Media Network,
      AddDependency Cache Network,
      AddDependency Bastion Security,
      AddDependency Opensearch Security,
      AddDependency Application Registry,
      AddDependency Environment Security,
      AddDependency Environment Cache,
      AddDependency Environment Database,
      AddDependency Environment Opensearch,
      AddDependency Environment Application]"

fun instantiated :: "event list \<Rightarrow> stack list" where
  "instantiated [] = []"
| "instantiated (Instantiate s # es) = s # instantiated es"
| "instantiated (e # es) = instantiated es"

text \<open>\<open>(a, b)\<close>: stack \<open>a\<close> declared that it depends on stack \<open>b\<close>.\<close>

fun dependencies :: "event list \<Rightarrow> (stack \<times> stack) list" where
  "dependencies [] = []"
| "dependencies (AddDependency a b # es) = (a, b) # dependencies es"
| "dependencies (e # es) = dependencies es"

text \<open>The position of the first occurrence of an event, if it occurs.\<close>

fun position :: "event \<Rightarrow> event list \<Rightarrow> nat option" where
  "position e [] = None"
| "position e (x # xs) =
     (if x = e then Some 0 else map_option Suc (position e xs))"

text \<open>
  \<open>ready_before b a\<close>: stack \<open>b\<close> is instantiated, loaded, deployed and exported, in
  this order, before stack \<open>a\<close> is instantiated.
\<close>

definition ready_before :: "stack \<Rightarrow> stack \<Rightarrow> event list \<Rightarrow> bool" where
  "ready_before b a es =
     (case (position (Instantiate b) es, position (Load b) es, position (Deploy b) es,
            position (Export b) es, position (Instantiate a) es) of
        (Some i, Some l, Some d, Some x, Some j) \<Rightarrow> i < l \<and> l < d \<and> d < x \<and> x < j
      | _ \<Rightarrow> False)"

section \<open>Settings resolution\<close>

lemma Settings_get_exact:
  "lookup_attr (cls_mro c) n = Some v \<Longrightarrow> Settings_get c n = Inr v"
  by (simp add: Settings_get_def hasattr_def getattr_def)

lemma Settings_get_default:
  "lookup_attr (cls_mro c) n = None \<Longrightarrow> lookup_attr (cls_mro c) ''default'' = Some d
   \<Longrightarrow> Settings_get c n = Inr d"
  by (simp add: Settings_get_def hasattr_def getattr_def)

lemma Settings_get_missing:
  "lookup_attr (cls_mro c) n = None \<Longrightarrow> lookup_attr (cls_mro c) ''default'' = None
   \<Longrightarrow> Settings_get c n = Inl (KeyError (cls_name c) n)"
  by (simp add: Settings_get_def hasattr_def)

text \<open>
  C1. For every settings class \<open>c\<close> and every name \<open>n\<close>: \<open>Settings_get c n\<close> returns the
  class attribute named \<open>n\<close> when \<open>c\<close> defines or inherits one (also when a \<open>default\<close>
  attribute exists: the exact name wins); otherwise it returns the attribute named
  \<open>default\<close> when there is one; otherwise it raises \<open>KeyError\<close>.
\<close>

theorem Settings_get_resolution:
  "(\<forall>v. lookup_attr (cls_mro c) n = Some v \<longrightarrow> Settings_get c n = Inr v) \<and>
   (\<forall>v d. lookup_attr (cls_mro c) n = Some v \<and> lookup_attr (cls_mro c) ''default'' = Some d
      \<longrightarrow> Settings_get c n = Inr v) \<and>
   (\<forall>d. lookup_attr (cls_mro c) n = None \<and> lookup_attr (cls_mro c) ''default'' = Some d
      \<longrightarrow> Settings_get c n = Inr d) \<and>
   (lookup_attr (cls_mro c) n = None \<and> lookup_attr (cls_mro c) ''default'' = None
      \<longrightarrow> Settings_get c n = Inl (KeyError (cls_name c) n))"
  using Settings_get_exact Settings_get_default Settings_get_missing by blast

theorem Settings_get_resolution_witness:
  "Settings_get DatabaseEncryptionSettings ''proddb'' = Inr (VBool True) \<and>
   Settings_get DatabaseEncryptionSettings ''staging'' = Inr (VBool False) \<and>
   Settings_get VpcCidrSettings ''staging'' = Inl (KeyError ''VpcCidrSettings'' ''staging'')"
proof -
  have a: "lookup_attr (cls_mro DatabaseEncryptionSettings) ''proddb'' = Some (VBool True)"
    by (simp add: DatabaseEncryptionSettings_def settings_def)
  have b: "lookup_attr (cls_mro DatabaseEncryptionSettings) ''default'' = Some (VBool False)"
    by (simp add: DatabaseEncryptionSettings_def settings_def)
  have c: "lookup_attr (cls_mro DatabaseEncryptionSettings) ''staging'' = None"
    by (simp add: DatabaseEncryptionSettings_def settings_def Settings_namespace_def)
  have d: "lookup_attr (cls_mro VpcCidrSettings) ''staging'' = None"
    by (simp add: VpcCidrSettings_def settings_def Settings_namespace_def)
  have e: "lookup_attr (cls_mro VpcCidrSettings) ''default'' = None"
    by (simp add: VpcCidrSettings_def settings_def Settings_namespace_def)
  have n: "cls_name VpcCidrSettings = ''VpcCidrSettings''"
    by (simp add: VpcCidrSettings_def settings_def)
  from Settings_get_resolution [of DatabaseEncryptionSettings "''proddb''"] a b
  have 1: "Settings_get DatabaseEncryptionSettings ''proddb'' = Inr (VBool True)" by blast
  from Settings_get_resolution [of DatabaseEncryptionSettings "''staging''"] b c
  have 2: "Settings_get DatabaseEncryptionSettings ''staging'' = Inr (VBool False)" by blast
  from Settings_get_resolution [of VpcCidrSettings "''staging''"] d e n
  have 3: "Settings_get VpcCidrSettings ''staging'' = Inl (KeyError ''VpcCidrSettings'' ''staging'')"
    by simp
  from 1 2 3 show ?thesis by blast
qed

section \<open>Autoscaling sizes\<close>

text \<open>
  C9. The claim is that the generated autoscaling options have \<open>MinSize \<le> MaxSize\<close> for
  every environment. For the environment \<open>proddb\<close> the options are \<open>MinSize = 4\<close> and
  \<open>MaxSize = 2\<close>, and for \<open>demodb\<close> they are \<open>2\<close> and \<open>1\<close>: the minimum exceeds the
  maximum. Only the default (\<open>1\<close> and \<open>1\<close>) is in order.
\<close>

theorem autoscaling_min_exceeds_max:
  "get_autoscaling_options ''proddb'' = Inr [(''MinSize'', VInt 4), (''MaxSize'', VInt 2)] \<and>
   get_autoscaling_options ''demodb'' = Inr [(''MinSize'', VInt 2), (''MaxSize'', VInt 1)] \<and>
   get_autoscaling_options ''staging'' = Inr [(''MinSize'', VInt 1), (''MaxSize'', VInt 1)] \<and>
   \<not> (4::int) \<le> 2 \<and> \<not> (2::int) \<le> 1"
  by (simp add: get_autoscaling_options_def Settings_get_def hasattr_def getattr_def
        MinNodesSettings_def MaxNodesSettings_def settings_def Settings_namespace_def)

section \<open>The order of the stacks\<close>

lemma instantiated_app:
  "instantiated app =
     [Registry, Network, Security, Bastion, Application, Media, Cache, Opensearch,
      Database, Environment]"
  by (simp add: app_def run_def)

lemma dependencies_app:
  "dependencies app =
     [(Registry, Network), (Bastion, Network), (Security, Network), (Database, Network),
      (Media, Network), (Cache, Network), (Bastion, Security), (Opensearch, Security),
      (Application, Registry), (Environment, Security), (Environment, Cache),
      (Environment, Database), (Environment, Opensearch), (Environment, Application)]"
  by (simp add: app_def run_def)

text \<open>
  C6, as stated, fails: the orchestrator does not compose exactly nine stacks.
\<close>

theorem nine_stacks_counterexample:
  "length (instantiated app) \<noteq> 9"
  by (simp add: instantiated_app)

text \<open>
  C6, amended. The orchestrator composes exactly ten concrete stacks, each one once:
  registry, network, security, bastion, application, media, cache, search, database
  and environment.
\<close>

theorem ten_stacks:
  "length (instantiated app) = 10 \<and> distinct (instantiated app) \<and>
   set (instantiated app) =
     {Registry, Network, Security, Bastion, Application, Media, Cache, Opensearch,
      Database, Environment}"
  by (simp add: instantiated_app)

text \<open>
  C5, as stated, fails: the registry stack declares a dependency on the network stack,
  and the network stack is instantiated after the registry stack, not before.
\<close>

theorem dependency_order_counterexample:
  "(Registry, Network) \<in> set (dependencies app) \<and>
   \<not> ready_before Network Registry app \<and>
   ready_before Registry Network app"
  by (simp add: dependencies_app) (simp add: ready_before_def app_def run_def)

text \<open>
  C5, amended. For every ordering constraint the orchestrator declares other than the
  registry's on the network, the stack depended upon is instantiated, loaded, deployed
  and exported before the dependent stack is instantiated; the registry stack is
  instantiated and run before the network stack it declares a dependency on.
\<close>

theorem dependency_order:
  "(\<forall>(a, b) \<in> set (dependencies app).
      (a, b) \<noteq> (Registry, Network) \<longrightarrow> ready_before b a app) \<and>
   ready_before Registry Network app"
  by (simp add: dependencies_app) (simp add: ready_before_def app_def run_def)

theorem dependency_order_witness:
  "(Environment, Database) \<in> set (dependencies app) \<and>
   (Environment, Database) \<noteq> (Registry, Network) \<and>
   ready_before Database Environment app"
proof -
  have m: "(Environment, Database) \<in> set (dependencies app)"
    by (simp add: dependencies_app)
  have n: "(Environment, Database) \<noteq> (Registry, Network)"
    by simp
  from dependency_order m n have "ready_before Database Environment app"
    by blast
  with m n show ?thesis by blast
qed

section \<open>The snapshot decision\<close>

lemma snapshot_exists_listing:
  assumes "Settings_get DatabaseSnapshotName network = Inr (VStr name)"
  shows "snapshot_exists network client =
           (case client name of
              Inl msg \<Rightarrow>
                if str_contains msg ''DBSnapshotNotFound'' then Inr False else Inl (Raised msg)
            | Inr snapshots \<Rightarrow> Inr (first_snapshot_available snapshots))"
  using assms by (simp add: snapshot_exists_def)

lemma snapshot_exists_found:
  assumes "snapshot_exists network client = Inr found"
  shows "\<exists>name. Settings_get DatabaseSnapshotName network = Inr (VStr name)"
  using assms
  by (cases "Settings_get DatabaseSnapshotName network")
     (auto simp: snapshot_exists_def split: val.splits)

lemma create_db_from_snapshot_iff:
  "from_snapshot (create_db s client) \<longleftrightarrow> snapshot_exists (ds_network s) client = Inr True"
proof (cases "snapshot_exists (ds_network s) client")
  case (Inl e)
  then show ?thesis by (simp add: create_db_def)
next
  case (Inr found)
  from snapshot_exists_found [OF Inr] obtain name
    where "Settings_get DatabaseSnapshotName (ds_network s) = Inr (VStr name)" by blast
  with Inr show ?thesis
    by (simp add: create_db_def create_db_from_snapshot_def create_db_from_scratch_def
          get_snapshot_arn_def)
qed

lemma create_db_from_scratch_iff:
  "from_scratch (create_db s client) \<longleftrightarrow> snapshot_exists (ds_network s) client = Inr False"
proof (cases "snapshot_exists (ds_network s) client")
  case (Inl e)
  then show ?thesis by (simp add: create_db_def)
next
  case (Inr found)
  from snapshot_exists_found [OF Inr] obtain name
    where "Settings_get DatabaseSnapshotName (ds_network s) = Inr (VStr name)" by blast
  with Inr show ?thesis
    by (simp add: create_db_def create_db_from_snapshot_def create_db_from_scratch_def
          get_snapshot_arn_def)
qed

text \<open>
  C2. \<open>create_db\<close> restores the database from a snapshot if and only if
  \<open>snapshot_exists\<close> returns \<open>True\<close>, and creates it from scratch if and only if it
  returns \<open>False\<close>. With the snapshot name of the network resolved to \<open>name\<close>,
  \<open>snapshot_exists\<close> returns \<open>False\<close> when the listing fails with an error whose text
  contains \<open>DBSnapshotNotFound\<close> or when the listing is empty, \<open>True\<close> when the first
  listed snapshot has the status \<open>available\<close>, \<open>False\<close> when it has any other status,
  and it raises again any other exception of the listing call.
\<close>

theorem snapshot_decision:
  assumes "Settings_get DatabaseSnapshotName (ds_network s) = Inr (VStr name)"
  shows
    "(from_snapshot (create_db s client) \<longleftrightarrow> snapshot_exists (ds_network s) client = Inr True) \<and>
     (from_scratch (create_db s client) \<longleftrightarrow> snapshot_exists (ds_network s) client = Inr False) \<and>
     (\<forall>msg. client name = Inl msg \<and> str_contains msg ''DBSnapshotNotFound''
        \<longrightarrow> snapshot_exists (ds_network s) client = Inr False) \<and>
     (client name = Inr [] \<longrightarrow> snapshot_exists (ds_network s) client = Inr False) \<and>
     (\<forall>x xs. client name = Inr (x # xs) \<and> Status x = ''available''
        \<longrightarrow> snapshot_exists (ds_network s) client = Inr True) \<and>
     (\<forall>x xs. client name = Inr (x # xs) \<and> Status x \<noteq> ''available''
        \<longrightarrow> snapshot_exists (ds_network s) client = Inr False) \<and>
     (\<forall>msg. client name = Inl msg \<and> \<not> str_contains msg ''DBSnapshotNotFound''
        \<longrightarrow> snapshot_exists (ds_network s) client = Inl (Raised msg))"
  using create_db_from_snapshot_iff [of s client] create_db_from_scratch_iff [of s client]
  by (simp add: snapshot_exists_listing [OF assms])

theorem snapshot_decision_witness:
  "(let s = \<lparr>ds_application = ''shop'', ds_network = ''mainnet'', ds_database = ''proddb'',
              ds_region = ''us-west-2'', ds_account = ''767087296931''\<rparr>;
        available = \<lparr>DBSnapshotIdentifier = ''latest'', Status = ''available''\<rparr>;
        creating = \<lparr>DBSnapshotIdentifier = ''latest'', Status = ''creating''\<rparr>
    in
      Settings_get DatabaseSnapshotName (ds_network s) = Inr (VStr ''latest'') \<and>
      snapshot_exists (ds_network s) (\<lambda>n. Inr [available]) = Inr True \<and>
      from_snapshot (create_db s (\<lambda>n. Inr [available])) \<and>
      snapshot_exists (ds_network s) (\<lambda>n. Inr [creating, available]) = Inr False \<and>
      from_scratch (create_db s (\<lambda>n. Inr [creating, available])) \<and>
      snapshot_exists (ds_network s) (\<lambda>n. Inr []) = Inr False \<and>
      snapshot_exists (ds_network s) (\<lambda>n. Inl ''DBSnapshotNotFound: latest'') = Inr False \<and>
      snapshot_exists (ds_network s) (\<lambda>n. Inl ''AccessDenied'') = Inl (Raised ''AccessDenied''))"
proof -
  define s where "s = \<lparr>ds_application = ''shop'', ds_network = ''mainnet'',
    ds_database = ''proddb'', ds_region = ''us-west-2'', ds_account = ''767087296931''\<rparr>"
  define available where "available = \<lparr>DBSnapshotIdentifier = ''latest'', Status = ''available''\<rparr>"
  define creating where "creating = \<lparr>DBSnapshotIdentifier = ''latest'', Status = ''creating''\<rparr>"
  have name: "Settings_get DatabaseSnapshotName (ds_network s) = Inr (VStr ''latest'')"
    by (simp add: s_def Settings_get_def hasattr_def getattr_def DatabaseSnapshotName_def
          settings_def)
  have st: "Status available = ''available''" "Status creating \<noteq> ''available''"
    by (simp_all add: available_def creating_def)
  have found: "str_contains ''DBSnapshotNotFound: latest'' ''DBSnapshotNotFound''"
    by simp
  have other: "\<not> str_contains ''AccessDenied'' ''DBSnapshotNotFound''"
    by simp
  from snapshot_decision [OF name, of "\<lambda>n. Inr [available]"] st
  have 1: "snapshot_exists (ds_network s) (\<lambda>n. Inr [available]) = Inr True"
    and 2: "from_snapshot (create_db s (\<lambda>n. Inr [available]))"
    by simp_all
  from snapshot_decision [OF name, of "\<lambda>n. Inr [creating, available]"] st
  have 3: "snapshot_exists (ds_network s) (\<lambda>n. Inr [creating, available]) = Inr False"
    and 4: "from_scratch (create_db s (\<lambda>n. Inr [creating, available]))"
    by simp_all
  from snapshot_decision [OF name, of "\<lambda>n. Inr []"]
  have 5: "snapshot_exists (ds_network s) (\<lambda>n. Inr []) = Inr False"
    by simp
  from snapshot_decision [OF name, of "\<lambda>n. Inl ''DBSnapshotNotFound: latest''"] found
  have 6: "snapshot_exists (ds_network s) (\<lambda>n. Inl ''DBSnapshotNotFound: latest'') = Inr False"
    by simp
  from snapshot_decision [OF name, of "\<lambda>n. Inl ''AccessDenied''"] other
  have 7: "snapshot_exists (ds_network s) (\<lambda>n. Inl ''AccessDenied'') = Inl (Raised ''AccessDenied'')"
    by simp
  from name 1 2 3 4 5 6 7 show ?thesis
    unfolding Let_def s_def [symmetric] available_def [symmetric] creating_def [symmetric]
    by blast
qed

section \<open>Subnets: the block check and the availability zones\<close>

lemmas settings_simps =
  Settings_get_def hasattr_def getattr_def settings_def Settings_namespace_def
  Settings_cycle_def Settings_length_def
  VpcCidrSettings_def PublicSubnetCidrSettings_def PrivateSubnetCidrSettings_def
  AvailabilityZonesSettings_def

lemma seq_Inr_iff: "seq m f = Inr y \<longleftrightarrow> (\<exists>x. m = Inr x \<and> f x = Inr y)"
  by (cases m) simp_all

lemma seq_Inl_iff: "seq m f = Inl e \<longleftrightarrow> m = Inl e \<or> (\<exists>x. m = Inr x \<and> f x = Inl e)"
  by (cases m) simp_all

lemma create_subnets_result:
  "create_subnets name region v c i bs (Cycle zs k) acc = Inr r \<Longrightarrow>
   r = acc @ map (\<lambda>j. \<lparr>subnet_id = name @ str_nat (i + j + 1), cidr_block = bs ! j,
                        subnet_vpc_id = (case v of None \<Rightarrow> [] | Some x \<Rightarrow> vpc_id x),
                        availability_zone = region @ zs ! ((k + j) mod length zs)\<rparr>)
                 [0..<length bs]"
proof (induction bs arbitrary: i k acc)
  case Nil
  then show ?case by simp
next
  case (Cons b bs)
  from Cons.prems obtain the_vpc where v: "v = Some the_vpc"
    by (cases v) (auto split: if_splits)
  from Cons.prems v have zs: "zs \<noteq> []"
    by (auto split: if_splits)
  let ?new = "\<lparr>subnet_id = name @ str_nat (i + 1), cidr_block = b,
                subnet_vpc_id = vpc_id the_vpc,
                availability_zone = region @ zs ! (k mod length zs)\<rparr>"
  from Cons.prems v zs
  have "create_subnets name region v c (i + 1) bs (Cycle zs (Suc k)) (acc @ [?new]) = Inr r"
    by (auto split: if_splits)
  from Cons.IH [OF this] show ?case
    by (simp add: v map_upt_Suc del: upt_Suc)
qed

lemma create_subnets_total:
  assumes "zs \<noteq> []"
    and "\<forall>b \<in> set bs. take 2 (split CHR ''.'' b) = take 2 (split CHR ''.'' c)"
  shows "\<exists>r. create_subnets name region (Some v) c i bs (Cycle zs k) acc = Inr r"
  using assms by (induction bs arbitrary: i k acc) auto

lemma create_subnets_error:
  assumes "zs \<noteq> []"
  shows "create_subnets name region (Some v) c i bs (Cycle zs k) acc = Inl e \<longleftrightarrow>
    e = RuntimeError \<and> (\<exists>b \<in> set bs. take 2 (split CHR ''.'' b) \<noteq> take 2 (split CHR ''.'' c))"
  using assms
  by (induction bs arbitrary: i k acc) auto

lemma next_cycle_error: "next_cycle az = Inl e \<Longrightarrow> e = StopIteration"
  by (cases az) (auto split: if_splits)

lemma create_subnets_mismatch:
  "create_subnets name region v c i bs az acc = Inl RuntimeError \<Longrightarrow>
   \<exists>b \<in> set bs. take 2 (split CHR ''.'' b) \<noteq> take 2 (split CHR ''.'' c)"
proof (induction bs arbitrary: i az acc)
  case Nil
  then show ?case by simp
next
  case (Cons b bs)
  show ?case
  proof (cases "take 2 (split CHR ''.'' b) = take 2 (split CHR ''.'' c)")
    case False
    then show ?thesis by simp
  next
    case True
    with Cons.prems obtain the_vpc where v: "v = Some the_vpc"
      by (cases v) auto
    with True Cons.prems obtain zone az' where
      "create_subnets name region v c (i + 1) bs az'
         (acc @ [\<lparr>subnet_id = name @ str_nat (i + 1), cidr_block = b,
                   subnet_vpc_id = vpc_id the_vpc,
                   availability_zone = region @ zone\<rparr>]) = Inl RuntimeError"
      by (cases "next_cycle az") (auto dest: next_cycle_error)
    from Cons.IH [OF this] show ?thesis by auto
  qed
qed

lemma import_subnets_result:
  "zs \<noteq> [] \<Longrightarrow>
   import_subnets a n kind region [i..<i + m] (Cycle zs k) =
     Inr (map (\<lambda>j. \<lparr>is_id = subnet_export_name a n kind (i + j),
                     is_subnet_id = ImportValue (subnet_export_name a n kind (i + j)),
                     is_availability_zone = region @ zs ! ((k + j) mod length zs)\<rparr>)
            [0..<m])"
proof (induction m arbitrary: i k)
  case 0
  then show ?case by simp
next
  case (Suc m)
  have "[i..<i + Suc m] = i # [Suc i..<Suc i + m]"
    by (simp add: upt_conv_Cons)
  with Suc.IH [OF Suc.prems, of "Suc i" "Suc k"] Suc.prems show ?case
    by (simp add: map_upt_Suc del: upt_Suc)
qed

lemma tier_of_zones:
  "Settings_get AvailabilityZonesSettings n = Inr (VList z) \<Longrightarrow>
   n \<in> {''mainnet'', ''testnet'', ''devnet''} \<and> z \<noteq> []"
  by (auto simp: settings_simps split: if_splits)

lemma Settings_cycle_list:
  "Settings_cycle c n = Inr az \<longleftrightarrow> (\<exists>z. Settings_get c n = Inr (VList z) \<and> az = Cycle z 0)"
  by (cases "Settings_get c n") (auto simp: Settings_cycle_def split: val.splits)

lemma Settings_length_list:
  "Settings_length c n = Inr k \<longleftrightarrow> (\<exists>z. Settings_get c n = Inr (VList z) \<and> k = length z)"
  by (cases "Settings_get c n") (auto simp: Settings_length_def split: val.splits)

lemma tier_settings:
  assumes "n \<in> {''mainnet'', ''testnet'', ''devnet''}"
  shows "\<exists>c public private z.
           Settings_get VpcCidrSettings n = Inr (VStr c) \<and>
           Settings_get PublicSubnetCidrSettings n = Inr (VList public) \<and>
           Settings_get PrivateSubnetCidrSettings n = Inr (VList private) \<and>
           Settings_get AvailabilityZonesSettings n = Inr (VList z) \<and>
           z \<noteq> [] \<and> public \<noteq> [] \<and> private \<noteq> [] \<and> length private = length public \<and>
           (\<forall>b \<in> set public \<union> set private.
              take 2 (split CHR ''.'' b) = take 2 (split CHR ''.'' c))"
  using assms by (auto simp: settings_simps)

lemma create_public_subnets_result:
  assumes "create_public_subnets s = Inr s'"
  shows "\<exists>c blocks z subnets.
           Settings_get VpcCidrSettings (ns_network s) = Inr (VStr c) \<and>
           Settings_get PublicSubnetCidrSettings (ns_network s) = Inr (VList blocks) \<and>
           Settings_get AvailabilityZonesSettings (ns_network s) = Inr (VList z) \<and>
           create_subnets (resource_prefix s @ ''-public-subnet-'') (ns_region s) (ns_vpc s) c 0
             blocks (Cycle z 0) (ns_public_subnets s) = Inr subnets \<and>
           s' = s\<lparr>ns_public_subnets := subnets\<rparr>"
proof -
  from assms obtain cidr cidr_blocks z where
    g: "Settings_get VpcCidrSettings (ns_network s) = Inr cidr"
       "Settings_get PublicSubnetCidrSettings (ns_network s) = Inr cidr_blocks"
       "Settings_get AvailabilityZonesSettings (ns_network s) = Inr (VList z)"
    and body: "(case (cidr, cidr_blocks) of
         (VStr c, VList blocks) \<Rightarrow>
           seq (create_subnets (resource_prefix s @ ''-public-subnet-'') (ns_region s)
                  (ns_vpc s) c 0 blocks (Cycle z 0) (ns_public_subnets s))
             (\<lambda>subnets. Inr (s\<lparr>ns_public_subnets := subnets\<rparr>))
       | _ \<Rightarrow> Inl TypeError) = Inr s'"
    by (auto simp: create_public_subnets_def seq_Inr_iff Settings_cycle_list)
  from body obtain c blocks where v: "cidr = VStr c" "cidr_blocks = VList blocks"
    by (cases cidr; cases cidr_blocks) simp_all
  with body g show ?thesis
    by (auto simp: seq_Inr_iff)
qed

lemma create_private_subnets_result:
  assumes "create_private_subnets s = Inr s'"
  shows "\<exists>c blocks z subnets.
           Settings_get VpcCidrSettings (ns_network s) = Inr (VStr c) \<and>
           Settings_get PrivateSubnetCidrSettings (ns_network s) = Inr (VList blocks) \<and>
           Settings_get AvailabilityZonesSettings (ns_network s) = Inr (VList z) \<and>
           create_subnets (resource_prefix s @ ''-private-subnet-'') (ns_region s) (ns_vpc s) c 0
             blocks (Cycle z 0) (ns_private_subnets s) = Inr subnets \<and>
           s' = s\<lparr>ns_private_subnets := subnets\<rparr>"
proof -
  from assms obtain cidr cidr_blocks z where
    g: "Settings_get VpcCidrSettings (ns_network s) = Inr cidr"
       "Settings_get PrivateSubnetCidrSettings (ns_network s) = Inr cidr_blocks"
       "Settings_get AvailabilityZonesSettings (ns_network s) = Inr (VList z)"
    and body: "(case (cidr, cidr_blocks) of
         (VStr c, VList blocks) \<Rightarrow>
           seq (create_subnets (resource_prefix s @ ''-private-subnet-'') (ns_region s)
                  (ns_vpc s) c 0 blocks (Cycle z 0) (ns_private_subnets s))
             (\<lambda>subnets. Inr (s\<lparr>ns_private_subnets := subnets\<rparr>))
       | _ \<Rightarrow> Inl TypeError) = Inr s'"
    by (auto simp: create_private_subnets_def seq_Inr_iff Settings_cycle_list)
  from body obtain c blocks where v: "cidr = VStr c" "cidr_blocks = VList blocks"
    by (cases cidr; cases cidr_blocks) simp_all
  with body g show ?thesis
    by (auto simp: seq_Inr_iff)
qed

lemma create_public_subnets_no_mismatch:
  assumes "ns_network s \<in> {''mainnet'', ''testnet'', ''devnet''}"
  shows "create_public_subnets s \<noteq> Inl RuntimeError"
proof
  assume raised: "create_public_subnets s = Inl RuntimeError"
  from tier_settings [OF assms] obtain c pub priv z where
    t: "Settings_get VpcCidrSettings (ns_network s) = Inr (VStr c)"
       "Settings_get PublicSubnetCidrSettings (ns_network s) = Inr (VList pub)"
       "Settings_get AvailabilityZonesSettings (ns_network s) = Inr (VList z)"
       "\<forall>b \<in> set pub \<union> set priv.
          take 2 (split CHR ''.'' b) = take 2 (split CHR ''.'' c)"
    by blast
  from raised t(1-3)
  have "create_subnets (resource_prefix s @ ''-public-subnet-'') (ns_region s) (ns_vpc s) c 0
          pub (Cycle z 0) (ns_public_subnets s) = Inl RuntimeError"
    by (simp add: create_public_subnets_def Settings_cycle_def seq_Inl_iff)
  from create_subnets_mismatch [OF this] t(4) show False by blast
qed

lemma create_private_subnets_no_mismatch:
  assumes "ns_network s \<in> {''mainnet'', ''testnet'', ''devnet''}"
  shows "create_private_subnets s \<noteq> Inl RuntimeError"
proof
  assume raised: "create_private_subnets s = Inl RuntimeError"
  from tier_settings [OF assms] obtain c pub priv z where
    t: "Settings_get VpcCidrSettings (ns_network s) = Inr (VStr c)"
       "Settings_get PrivateSubnetCidrSettings (ns_network s) = Inr (VList priv)"
       "Settings_get AvailabilityZonesSettings (ns_network s) = Inr (VList z)"
       "\<forall>b \<in> set pub \<union> set priv.
          take 2 (split CHR ''.'' b) = take 2 (split CHR ''.'' c)"
    by blast
  from raised t(1-3)
  have "create_subnets (resource_prefix s @ ''-private-subnet-'') (ns_region s) (ns_vpc s) c 0
          priv (Cycle z 0) (ns_private_subnets s) = Inl RuntimeError"
    by (simp add: create_private_subnets_def Settings_cycle_def seq_Inl_iff)
  from create_subnets_mismatch [OF this] t(4) show False by blast
qed

text \<open>
  C3. With a VPC in place and a non-empty list of zones, the subnet loop raises
  \<open>RuntimeError\<close> exactly when the first two dotted components of some subnet block
  differ from those of the VPC block. For each of the three configured networks
  (\<open>mainnet\<close>, \<open>testnet\<close>, \<open>devnet\<close>) every public and every private block shares its
  first two dotted components with the VPC block of that network, so neither
  \<open>create_public_subnets\<close> nor \<open>create_private_subnets\<close> raises \<open>RuntimeError\<close> there.
\<close>

theorem subnet_cidr_check:
  "(zones \<noteq> [] \<longrightarrow>
      (create_subnets name region (Some v) cidr index blocks (Cycle zones k) created
         = Inl RuntimeError) =
      (\<exists>b \<in> set blocks. take 2 (split CHR ''.'' b) \<noteq> take 2 (split CHR ''.'' cidr))) \<and>
   (n \<in> {''mainnet'', ''testnet'', ''devnet''} \<longrightarrow>
      (\<exists>c public private.
         Settings_get VpcCidrSettings n = Inr (VStr c) \<and>
         Settings_get PublicSubnetCidrSettings n = Inr (VList public) \<and>
         Settings_get PrivateSubnetCidrSettings n = Inr (VList private) \<and>
         (\<forall>b \<in> set public \<union> set private.
            take 2 (split CHR ''.'' b) = take 2 (split CHR ''.'' c)))) \<and>
   (ns_network s \<in> {''mainnet'', ''testnet'', ''devnet''} \<longrightarrow>
      create_public_subnets s \<noteq> Inl RuntimeError \<and>
      create_private_subnets s \<noteq> Inl RuntimeError)"
proof (intro conjI impI)
  assume "zones \<noteq> []"
  from create_subnets_error [OF this, of name region v cidr index blocks k created RuntimeError]
  show "(create_subnets name region (Some v) cidr index blocks (Cycle zones k) created
           = Inl RuntimeError) =
        (\<exists>b \<in> set blocks. take 2 (split CHR ''.'' b) \<noteq> take 2 (split CHR ''.'' cidr))"
    by simp
next
  assume "n \<in> {''mainnet'', ''testnet'', ''devnet''}"
  from tier_settings [OF this]
  show "\<exists>c public private.
         Settings_get VpcCidrSettings n = Inr (VStr c) \<and>
         Settings_get PublicSubnetCidrSettings n = Inr (VList public) \<and>
         Settings_get PrivateSubnetCidrSettings n = Inr (VList private) \<and>
         (\<forall>b \<in> set public \<union> set private.
            take 2 (split CHR ''.'' b) = take 2 (split CHR ''.'' c))"
    by blast
next
  assume "ns_network s \<in> {''mainnet'', ''testnet'', ''devnet''}"
  then show "create_public_subnets s \<noteq> Inl RuntimeError"
    by (rule create_public_subnets_no_mismatch)
next
  assume "ns_network s \<in> {''mainnet'', ''testnet'', ''devnet''}"
  then show "create_private_subnets s \<noteq> Inl RuntimeError"
    by (rule create_private_subnets_no_mismatch)
qed

theorem subnet_cidr_check_witness:
  "create_subnets ''shop-mainnet-public-subnet-'' ''us-west-2''
     (Some \<lparr>vpc_id = ''shop-mainnet-vpc'', vpc_cidr = VStr ''10.0.0.0/16'', max_azs = 3\<rparr>)
     ''10.0.0.0/16'' 0 [''10.0.0.0/19'', ''10.1.32.0/19''] (Cycle [''a'', ''b'', ''c''] 0) []
     = Inl RuntimeError \<and>
   Settings_get VpcCidrSettings ''devnet'' = Inr (VStr ''10.11.0.0/16'') \<and>
   create_public_subnets (NetworkStack ''shop'' ''devnet'' ''us-west-2'') \<noteq> Inl RuntimeError \<and>
   create_private_subnets (NetworkStack ''shop'' ''devnet'' ''us-west-2'') \<noteq> Inl RuntimeError"
proof -
  have zones: "[''a'', ''b'', ''c''] \<noteq> []" by simp
  have bad: "\<exists>b \<in> set [''10.0.0.0/19'', ''10.1.32.0/19''].
               take 2 (split CHR ''.'' b) \<noteq> take 2 (split CHR ''.'' ''10.0.0.0/16'')"
    by simp
  have tier: "''devnet'' \<in> {''mainnet'', ''testnet'', ''devnet''}" by simp
  have net: "ns_network (NetworkStack ''shop'' ''devnet'' ''us-west-2'') = ''devnet''"
    by (simp add: NetworkStack_def)
  have cidr: "Settings_get VpcCidrSettings ''devnet'' = Inr (VStr ''10.11.0.0/16'')"
    by (simp add: settings_simps)
  from subnet_cidr_check
         [of "[''a'', ''b'', ''c'']" "''shop-mainnet-public-subnet-''" "''us-west-2''"
             "\<lparr>vpc_id = ''shop-mainnet-vpc'', vpc_cidr = VStr ''10.0.0.0/16'', max_azs = 3\<rparr>"
             "''10.0.0.0/16''" 0 "[''10.0.0.0/19'', ''10.1.32.0/19'']" 0 "[]"
             "''devnet''" "NetworkStack ''shop'' ''devnet'' ''us-west-2''"]
       zones bad tier net cidr
  show ?thesis by simp
qed

lemma import_public_subnets_result:
  assumes "import_public_subnets p = Inr p'"
  shows "\<exists>z blocks subnets.
           Settings_get AvailabilityZonesSettings (ps_network p) = Inr (VList z) \<and>
           Settings_get PublicSubnetCidrSettings (ps_network p) = Inr (VList blocks) \<and>
           import_subnets (ps_application p) (ps_network p) ''public'' (ps_region p)
             [0..<length blocks] (Cycle z 0) = Inr subnets \<and>
           p' = p\<lparr>ps_public_subnets := subnets\<rparr>"
  using assms
  by (auto simp: import_public_subnets_def seq_Inr_iff Settings_cycle_list Settings_length_list
        split: if_splits)

lemma import_private_subnets_result:
  assumes "import_private_subnets p = Inr p'"
  shows "\<exists>z blocks subnets.
           Settings_get AvailabilityZonesSettings (ps_network p) = Inr (VList z) \<and>
           Settings_get PrivateSubnetCidrSettings (ps_network p) = Inr (VList blocks) \<and>
           import_subnets (ps_application p) (ps_network p) ''private'' (ps_region p)
             [0..<length blocks] (Cycle z 0) = Inr subnets \<and>
           p' = p\<lparr>ps_private_subnets := subnets\<rparr>"
  using assms
  by (auto simp: import_private_subnets_def seq_Inr_iff Settings_cycle_list Settings_length_list)

lemma created_zones:
  assumes "create_subnets name region v cidr index blocks (Cycle z 0) [] = Inr subnets"
  shows "length subnets = length blocks \<and>
         (\<forall>i<length blocks. availability_zone (subnets ! i) = region @ z ! (i mod length z))"
  using create_subnets_result [OF assms] by simp

lemma imported_zones:
  assumes "z \<noteq> []"
  shows "\<exists>subnets. import_subnets a n kind region [0..<m] (Cycle z 0) = Inr subnets \<and>
           length subnets = m \<and>
           (\<forall>i<m. is_availability_zone (subnets ! i) = region @ z ! (i mod length z))"
  using import_subnets_result [OF assms, of a n kind region 0 m 0] by simp

text \<open>
  C8. The subnet at the zero-based index \<open>i\<close> gets the availability zone
  \<open>region @ z ! (i mod length z)\<close>, where \<open>z\<close> is the list of zones of the network: in
  the loop that creates subnets and in the one that imports them, and so in the four
  functions that run these loops from the settings. With a non-empty list of zones the
  zones never run out, however many subnets there are: the import loop always returns,
  and the creation loop returns whenever the VPC exists and the blocks pass the check.
\<close>

theorem availability_zone_cycle:
  "(create_subnets name region v cidr index blocks (Cycle z 0) [] = Inr subnets \<longrightarrow>
      length subnets = length blocks \<and>
      (\<forall>i<length blocks. availability_zone (subnets ! i) = region @ z ! (i mod length z))) \<and>
   (z \<noteq> [] \<and> (\<forall>b \<in> set blocks. take 2 (split CHR ''.'' b) = take 2 (split CHR ''.'' cidr)) \<longrightarrow>
      (\<exists>created. create_subnets name region (Some the_vpc) cidr index blocks (Cycle z 0) []
         = Inr created)) \<and>
   (z \<noteq> [] \<longrightarrow>
      (\<exists>imported. import_subnets a n kind region [0..<m] (Cycle z 0) = Inr imported \<and>
         length imported = m \<and>
         (\<forall>i<m. is_availability_zone (imported ! i) = region @ z ! (i mod length z)))) \<and>
   (Settings_get AvailabilityZonesSettings (ns_network s) = Inr (VList z) \<and>
    ns_public_subnets s = [] \<and> create_public_subnets s = Inr s' \<longrightarrow>
      (\<forall>i<length (ns_public_subnets s').
         availability_zone (ns_public_subnets s' ! i) = ns_region s @ z ! (i mod length z))) \<and>
   (Settings_get AvailabilityZonesSettings (ns_network s) = Inr (VList z) \<and>
    ns_private_subnets s = [] \<and> create_private_subnets s = Inr s'' \<longrightarrow>
      (\<forall>i<length (ns_private_subnets s'').
         availability_zone (ns_private_subnets s'' ! i) = ns_region s @ z ! (i mod length z))) \<and>
   (Settings_get AvailabilityZonesSettings (ps_network p) = Inr (VList z) \<and>
    import_public_subnets p = Inr p' \<longrightarrow>
      (\<forall>i<length (ps_public_subnets p').
         is_availability_zone (ps_public_subnets p' ! i) = ps_region p @ z ! (i mod length z))) \<and>
   (Settings_get AvailabilityZonesSettings (ps_network p) = Inr (VList z) \<and>
    import_private_subnets p = Inr p'' \<longrightarrow>
      (\<forall>i<length (ps_private_subnets p'').
         is_availability_zone (ps_private_subnets p'' ! i) = ps_region p @ z ! (i mod length z)))"
proof (intro conjI impI)
  assume "create_subnets name region v cidr index blocks (Cycle z 0) [] = Inr subnets"
  from created_zones [OF this]
  show "length subnets = length blocks"
    and "\<forall>i<length blocks. availability_zone (subnets ! i) = region @ z ! (i mod length z)"
    by simp_all
next
  assume "z \<noteq> [] \<and> (\<forall>b \<in> set blocks. take 2 (split CHR ''.'' b) = take 2 (split CHR ''.'' cidr))"
  then show "\<exists>created. create_subnets name region (Some the_vpc) cidr index blocks (Cycle z 0) []
         = Inr created"
    using create_subnets_total [of z blocks cidr name region the_vpc index 0 "[]"] by blast
next
  assume "z \<noteq> []"
  from imported_zones [OF this]
  show "\<exists>imported. import_subnets a n kind region [0..<m] (Cycle z 0) = Inr imported \<and>
         length imported = m \<and>
         (\<forall>i<m. is_availability_zone (imported ! i) = region @ z ! (i mod length z))"
    by blast
next
  assume h: "Settings_get AvailabilityZonesSettings (ns_network s) = Inr (VList z) \<and>
    ns_public_subnets s = [] \<and> create_public_subnets s = Inr s'"
  with create_public_subnets_result [of s s'] obtain c bs subnets where
    "create_subnets (resource_prefix s @ ''-public-subnet-'') (ns_region s) (ns_vpc s) c 0
       bs (Cycle z 0) [] = Inr subnets" and "s' = s\<lparr>ns_public_subnets := subnets\<rparr>"
    by auto
  with created_zones [of _ "ns_region s" _ _ 0 bs z subnets]
  show "\<forall>i<length (ns_public_subnets s').
         availability_zone (ns_public_subnets s' ! i) = ns_region s @ z ! (i mod length z)"
    by simp
next
  assume h: "Settings_get AvailabilityZonesSettings (ns_network s) = Inr (VList z) \<and>
    ns_private_subnets s = [] \<and> create_private_subnets s = Inr s''"
  with create_private_subnets_result [of s s''] obtain c bs subnets where
    "create_subnets (resource_prefix s @ ''-private-subnet-'') (ns_region s) (ns_vpc s) c 0
       bs (Cycle z 0) [] = Inr subnets" and "s'' = s\<lparr>ns_private_subnets := subnets\<rparr>"
    by auto
  with created_zones [of _ "ns_region s" _ _ 0 bs z subnets]
  show "\<forall>i<length (ns_private_subnets s'').
         availability_zone (ns_private_subnets s'' ! i) = ns_region s @ z ! (i mod length z)"
    by simp
next
  assume h: "Settings_get AvailabilityZonesSettings (ps_network p) = Inr (VList z) \<and>
    import_public_subnets p = Inr p'"
  then have z: "z \<noteq> []" using tier_of_zones by blast
  from h have ip: "import_public_subnets p = Inr p'" by simp
  from import_public_subnets_result [OF ip] obtain z' and bs :: "string list" and subnets where
    a: "Settings_get AvailabilityZonesSettings (ps_network p) = Inr (VList z')"
    and b: "import_subnets (ps_application p) (ps_network p) ''public'' (ps_region p)
       [0..<length bs] (Cycle z' 0) = Inr subnets"
    and c: "p' = p\<lparr>ps_public_subnets := subnets\<rparr>"
    by blast
  from a h have "z' = z" by simp
  with b c
  have "import_subnets (ps_application p) (ps_network p) ''public'' (ps_region p)
       [0..<length bs] (Cycle z 0) = Inr subnets" and "p' = p\<lparr>ps_public_subnets := subnets\<rparr>"
    by simp_all
  with imported_zones [OF z, of "ps_application p" "ps_network p" "''public''" "ps_region p" "length bs"]
  show "\<forall>i<length (ps_public_subnets p').
         is_availability_zone (ps_public_subnets p' ! i) = ps_region p @ z ! (i mod length z)"
    by auto
next
  assume h: "Settings_get AvailabilityZonesSettings (ps_network p) = Inr (VList z) \<and>
    import_private_subnets p = Inr p''"
  then have z: "z \<noteq> []" using tier_of_zones by blast
  from h have ip: "import_private_subnets p = Inr p''" by simp
  from import_private_subnets_result [OF ip] obtain z' and bs :: "string list" and subnets where
    a: "Settings_get AvailabilityZonesSettings (ps_network p) = Inr (VList z')"
    and b: "import_subnets (ps_application p) (ps_network p) ''private'' (ps_region p)
       [0..<length bs] (Cycle z' 0) = Inr subnets"
    and c: "p'' = p\<lparr>ps_private_subnets := subnets\<rparr>"
    by blast
  from a h have "z' = z" by simp
  with b c
  have "import_subnets (ps_application p) (ps_network p) ''private'' (ps_region p)
       [0..<length bs] (Cycle z 0) = Inr subnets" and "p'' = p\<lparr>ps_private_subnets := subnets\<rparr>"
    by simp_all
  with imported_zones [OF z, of "ps_application p" "ps_network p" "''private''" "ps_region p" "length bs"]
  show "\<forall>i<length (ps_private_subnets p'').
         is_availability_zone (ps_private_subnets p'' ! i) = ps_region p @ z ! (i mod length z)"
    by auto
qed

theorem availability_zone_cycle_witness:
  "\<exists>created imported.
     create_subnets ''shop-devnet-public-subnet-'' ''us-west-2''
       (Some \<lparr>vpc_id = ''shop-devnet-vpc'', vpc_cidr = VStr ''10.11.0.0/16'', max_azs = 2\<rparr>)
       ''10.11.0.0/16'' 0 [''10.11.0.0/19'', ''10.11.32.0/19'', ''10.11.64.0/19'']
       (Cycle [''a'', ''b''] 0) [] = Inr created \<and>
     length created = 3 \<and>
     availability_zone (created ! 0) = ''us-west-2a'' \<and>
     availability_zone (created ! 1) = ''us-west-2b'' \<and>
     availability_zone (created ! 2) = ''us-west-2a'' \<and>
     import_subnets ''shop'' ''devnet'' ''public'' ''us-west-2'' [0..<3] (Cycle [''a'', ''b''] 0)
       = Inr imported \<and>
     length imported = 3 \<and>
     is_availability_zone (imported ! 2) = ''us-west-2a''"
proof -
  let ?z = "[''a'', ''b'']"
  let ?blocks = "[''10.11.0.0/19'', ''10.11.32.0/19'', ''10.11.64.0/19'']"
  let ?vpc = "\<lparr>vpc_id = ''shop-devnet-vpc'', vpc_cidr = VStr ''10.11.0.0/16'', max_azs = 2\<rparr>"
  note inst = availability_zone_cycle
    [where z = ?z and blocks = ?blocks and cidr = "''10.11.0.0/16''" and the_vpc = ?vpc
       and v = "Some ?vpc" and name = "''shop-devnet-public-subnet-''" and region = "''us-west-2''"
       and index = 0 and a = "''shop''" and n = "''devnet''" and kind = "''public''" and m = 3]
  have z: "?z \<noteq> []" by simp
  have ok: "\<forall>b \<in> set ?blocks. take 2 (split CHR ''.'' b) = take 2 (split CHR ''.'' ''10.11.0.0/16'')"
    by simp
  from inst [THEN conjunct2, THEN conjunct1, THEN mp, OF conjI [OF z ok]] obtain created where
    c: "create_subnets ''shop-devnet-public-subnet-'' ''us-west-2'' (Some ?vpc) ''10.11.0.0/16'' 0
          ?blocks (Cycle ?z 0) [] = Inr created"
    by blast
  note created_facts = inst [THEN conjunct1, THEN mp, OF c]
  have cl: "length created = 3"
    using created_facts by simp
  have c0: "availability_zone (created ! 0) = ''us-west-2a''"
    using created_facts [THEN conjunct2, rule_format, of 0] by simp
  have c1: "availability_zone (created ! 1) = ''us-west-2b''"
    using created_facts [THEN conjunct2, rule_format, of 1] by simp
  have c2: "availability_zone (created ! 2) = ''us-west-2a''"
    using created_facts [THEN conjunct2, rule_format, of 2] by (simp add: numeral_2_eq_2)
  from inst [THEN conjunct2, THEN conjunct2, THEN conjunct1, THEN mp, OF z] obtain imported where
    i: "import_subnets ''shop'' ''devnet'' ''public'' ''us-west-2'' [0..<3] (Cycle ?z 0) = Inr imported"
    and il: "length imported = 3"
    and iz: "\<forall>i<3. is_availability_zone (imported ! i) = ''us-west-2'' @ ?z ! (i mod length ?z)"
    by blast
  have i2: "is_availability_zone (imported ! 2) = ''us-west-2a''"
    using iz [rule_format, of 2] by (simp add: numeral_2_eq_2)
  from c cl c0 c1 c2 i il i2 show ?thesis by blast
qed

section \<open>Exported and imported names\<close>

lemma map_enumerate_index:
  "map (\<lambda>(index, x). f index) (enumerate k xs) = map f [k..<k + length xs]"
proof (induction xs arbitrary: k)
  case Nil
  then show ?case by simp
next
  case (Cons x xs)
  have "[k..<k + length (x # xs)] = k # [Suc k..<Suc k + length xs]"
    by (subst upt_rec) simp
  with Cons.IH [of "Suc k"] show ?case by (simp del: upt_Suc)
qed

lemma export_names:
  assumes "NetworkStack_export s = Inr outputs"
  shows "map export_name outputs =
           (names_prefix (ns_application s) (ns_network s) @ ''::vpc::id'') #
           map (subnet_export_name (ns_application s) (ns_network s) ''public'')
             [0..<length (ns_public_subnets s)] @
           map (subnet_export_name (ns_application s) (ns_network s) ''private'')
             [0..<length (ns_private_subnets s)]"
proof -
  from assms obtain v where "ns_vpc s = Some v"
    by (cases "ns_vpc s") (simp_all add: NetworkStack_export_def)
  with assms have "outputs =
      [\<lparr>export_name = names_prefix (ns_application s) (ns_network s) @ ''::vpc::id'',
        output_value = vpc_id v\<rparr>] @
      map (\<lambda>(index, sn).
             \<lparr>export_name = subnet_export_name (ns_application s) (ns_network s) ''public'' index,
              output_value = subnet_id sn\<rparr>)
        (enumerate 0 (ns_public_subnets s)) @
      map (\<lambda>(index, sn).
             \<lparr>export_name = subnet_export_name (ns_application s) (ns_network s) ''private'' index,
              output_value = subnet_id sn\<rparr>)
        (enumerate 0 (ns_private_subnets s))"
    by (simp add: NetworkStack_export_def)
  then show ?thesis
    using map_enumerate_index
      [of "subnet_export_name (ns_application s) (ns_network s) ''public''" 0 "ns_public_subnets s"]
      map_enumerate_index
      [of "subnet_export_name (ns_application s) (ns_network s) ''private''" 0 "ns_private_subnets s"]
    by (simp add: case_prod_unfold comp_def)
qed

lemma create_vpc_frame:
  "create_vpc s = Inr s' \<Longrightarrow> \<exists>v. s' = s\<lparr>ns_vpc := Some v\<rparr>"
  by (auto simp: create_vpc_def seq_Inr_iff)

lemma create_internet_gateway_frame:
  "create_internet_gateway s = Inr s' \<Longrightarrow> \<exists>g at. s' = s\<lparr>ns_igw := g, ns_igw_attachments := at\<rparr>"
  by (auto simp: create_internet_gateway_def split: if_splits)

lemma create_eip_frame:
  "create_eip s = Inr s' \<Longrightarrow> \<exists>e. s' = s\<lparr>ns_eip := e\<rparr>"
  by (auto simp: create_eip_def seq_Inr_iff)

lemma create_nat_gateways_frame:
  "create_nat_gateways s = Inr s' \<Longrightarrow> \<exists>g. s' = s\<lparr>ns_nat_gateways := g\<rparr>"
  by (auto simp: create_nat_gateways_def seq_Inr_iff split: if_splits)

lemma create_vpc_endpoints_frame:
  "create_vpc_endpoints s = Inr s' \<Longrightarrow> ns_vpc s \<noteq> None \<and> (\<exists>e. s' = s\<lparr>ns_vpc_endpoints := e\<rparr>)"
  by (auto simp: create_vpc_endpoints_def split: if_splits)

lemma create_public_subnets_frame:
  assumes "create_public_subnets s = Inr s'"
  shows "\<exists>blocks subnets.
           Settings_get PublicSubnetCidrSettings (ns_network s) = Inr (VList blocks) \<and>
           length subnets = length (ns_public_subnets s) + length blocks \<and>
           s' = s\<lparr>ns_public_subnets := subnets\<rparr>"
proof -
  from create_public_subnets_result [OF assms] obtain c blocks z subnets where
    b: "Settings_get PublicSubnetCidrSettings (ns_network s) = Inr (VList blocks)"
    and l: "create_subnets (resource_prefix s @ ''-public-subnet-'') (ns_region s) (ns_vpc s) c 0
             blocks (Cycle z 0) (ns_public_subnets s) = Inr subnets"
    and s': "s' = s\<lparr>ns_public_subnets := subnets\<rparr>"
    by blast
  from create_subnets_result [OF l]
  have "length subnets = length (ns_public_subnets s) + length blocks" by simp
  with b s' show ?thesis by blast
qed

lemma create_private_subnets_frame:
  assumes "create_private_subnets s = Inr s'"
  shows "\<exists>blocks subnets.
           Settings_get PrivateSubnetCidrSettings (ns_network s) = Inr (VList blocks) \<and>
           length subnets = length (ns_private_subnets s) + length blocks \<and>
           s' = s\<lparr>ns_private_subnets := subnets\<rparr>"
proof -
  from create_private_subnets_result [OF assms] obtain c blocks z subnets where
    b: "Settings_get PrivateSubnetCidrSettings (ns_network s) = Inr (VList blocks)"
    and l: "create_subnets (resource_prefix s @ ''-private-subnet-'') (ns_region s) (ns_vpc s) c 0
             blocks (Cycle z 0) (ns_private_subnets s) = Inr subnets"
    and s': "s' = s\<lparr>ns_private_subnets := subnets\<rparr>"
    by blast
  from create_subnets_result [OF l]
  have "length subnets = length (ns_private_subnets s) + length blocks" by simp
  with b s' show ?thesis by blast
qed

lemma deploy_frame:
  assumes "NetworkStack_deploy s = Inr s'"
  shows "ns_application s' = ns_application s \<and> ns_network s' = ns_network s \<and>
         ns_vpc s' \<noteq> None \<and>
         (\<exists>pub priv.
            Settings_get PublicSubnetCidrSettings (ns_network s) = Inr (VList pub) \<and>
            Settings_get PrivateSubnetCidrSettings (ns_network s) = Inr (VList priv) \<and>
            length (ns_public_subnets s') = length (ns_public_subnets s) + length pub \<and>
            length (ns_private_subnets s') = length (ns_private_subnets s) + length priv)"
proof -
  from assms obtain s1 s2 s3 s4 s5 s6 where
    1: "create_vpc s = Inr s1" and 2: "create_public_subnets s1 = Inr s2"
    and 3: "create_private_subnets s2 = Inr s3" and 4: "create_internet_gateway s3 = Inr s4"
    and 5: "create_eip s4 = Inr s5" and 6: "create_nat_gateways s5 = Inr s6"
    and 7: "create_vpc_endpoints s6 = Inr s'"
    by (auto simp: NetworkStack_deploy_def seq_Inr_iff split: if_splits)
  from create_vpc_frame [OF 1] obtain v where s1: "s1 = s\<lparr>ns_vpc := Some v\<rparr>" by blast
  from create_public_subnets_frame [OF 2] obtain pub subs where
    pub: "Settings_get PublicSubnetCidrSettings (ns_network s1) = Inr (VList pub)"
      "length subs = length (ns_public_subnets s1) + length pub"
    and s2: "s2 = s1\<lparr>ns_public_subnets := subs\<rparr>" by blast
  from create_private_subnets_frame [OF 3] obtain priv subs' where
    priv: "Settings_get PrivateSubnetCidrSettings (ns_network s2) = Inr (VList priv)"
      "length subs' = length (ns_private_subnets s2) + length priv"
    and s3: "s3 = s2\<lparr>ns_private_subnets := subs'\<rparr>" by blast
  from create_internet_gateway_frame [OF 4] obtain g at where
    s4: "s4 = s3\<lparr>ns_igw := g, ns_igw_attachments := at\<rparr>" by blast
  from create_eip_frame [OF 5] obtain e where s5: "s5 = s4\<lparr>ns_eip := e\<rparr>" by blast
  from create_nat_gateways_frame [OF 6] obtain ng where s6: "s6 = s5\<lparr>ns_nat_gateways := ng\<rparr>"
    by blast
  from create_vpc_endpoints_frame [OF 7] obtain ep where
    s': "s' = s6\<lparr>ns_vpc_endpoints := ep\<rparr>" and vpc: "ns_vpc s6 \<noteq> None" by blast
  from pub priv vpc show ?thesis
    by (simp add: s1 s2 s3 s4 s5 s6 s')
qed

lemma seq_InrE:
  assumes "seq m f = Inr y"
  obtains x where "m = Inr x" and "f x = Inr y"
  using assms by (cases m) simp_all

lemma import_vpc_result:
  assumes "import_vpc p = Inr p'"
  shows "\<exists>vpub vpriv n_public n_private v.
           Settings_get PublicSubnetCidrSettings (ps_network p) = Inr vpub \<and>
           Settings_get PrivateSubnetCidrSettings (ps_network p) = Inr vpriv \<and>
           py_len vpub = Inr n_public \<and> py_len vpriv = Inr n_private \<and>
           p' = p\<lparr>ps_vpc := Some v\<rparr> \<and>
           iv_vpc_id v = ImportValue (names_prefix (ps_application p) (ps_network p) @ ''::vpc::id'') \<and>
           iv_public_subnet_ids v =
             map (\<lambda>index. ImportValue
                    (subnet_export_name (ps_application p) (ps_network p) ''public'' index))
               [0..<n_public] \<and>
           iv_private_subnet_ids v =
             map (\<lambda>index. ImportValue
                    (subnet_export_name (ps_application p) (ps_network p) ''private'' index))
               [0..<n_private]"
proof -
  from assms have net: "ps_network p \<noteq> []"
    by (auto simp: import_vpc_def split: if_splits)
  from assms show ?thesis
    unfolding import_vpc_def if_not_P [OF net]
    apply (elim seq_InrE)
    apply (drule Inr_inject)
    apply (intro exI conjI)
           apply assumption+
       apply (erule sym)
      apply simp_all
    done
qed

lemma imported_subnet_names:
  assumes "Settings_get AvailabilityZonesSettings n = Inr (VList z)"
    and "import_subnets a n kind region [0..<m] (Cycle z 0) = Inr subnets"
  shows "map (\<lambda>sn. import_name (is_subnet_id sn)) subnets = map (subnet_export_name a n kind) [0..<m]"
proof -
  from assms(1) have "z \<noteq> []" using tier_of_zones by blast
  from import_subnets_result [OF this, of a n kind region 0 m 0] assms(2)
  show ?thesis by (auto simp: comp_def)
qed

lemma load_names:
  assumes "NetworkProtectedStack_load p = Inr p'"
  shows "\<exists>pub priv v.
           Settings_get PublicSubnetCidrSettings (ps_network p) = Inr (VList pub) \<and>
           Settings_get PrivateSubnetCidrSettings (ps_network p) = Inr (VList priv) \<and>
           ps_vpc p' = Some v \<and>
           import_name (iv_vpc_id v) =
             names_prefix (ps_application p) (ps_network p) @ ''::vpc::id'' \<and>
           map import_name (iv_public_subnet_ids v) =
             map (subnet_export_name (ps_application p) (ps_network p) ''public'') [0..<length pub] \<and>
           map import_name (iv_private_subnet_ids v) =
             map (subnet_export_name (ps_application p) (ps_network p) ''private'') [0..<length priv] \<and>
           map (\<lambda>sn. import_name (is_subnet_id sn)) (ps_public_subnets p') =
             map (subnet_export_name (ps_application p) (ps_network p) ''public'') [0..<length pub] \<and>
           map (\<lambda>sn. import_name (is_subnet_id sn)) (ps_private_subnets p') =
             map (subnet_export_name (ps_application p) (ps_network p) ''private'') [0..<length priv]"
proof -
  let ?a = "ps_application p" and ?n = "ps_network p"
  from assms obtain p1 p2 where
    1: "import_vpc p = Inr p1" and 2: "import_public_subnets p1 = Inr p2"
    and 3: "import_private_subnets p2 = Inr p'"
    by (auto simp: NetworkProtectedStack_load_def seq_Inr_iff split: if_splits)
  from import_vpc_result [OF 1] obtain vpub vpriv n_public n_private v where
    g: "Settings_get PublicSubnetCidrSettings ?n = Inr vpub"
       "Settings_get PrivateSubnetCidrSettings ?n = Inr vpriv"
    and len: "py_len vpub = Inr n_public" "py_len vpriv = Inr n_private"
    and p1: "p1 = p\<lparr>ps_vpc := Some v\<rparr>"
    and v: "iv_vpc_id v = ImportValue (names_prefix ?a ?n @ ''::vpc::id'')"
      "iv_public_subnet_ids v =
         map (\<lambda>index. ImportValue (subnet_export_name ?a ?n ''public'' index)) [0..<n_public]"
      "iv_private_subnet_ids v =
         map (\<lambda>index. ImportValue (subnet_export_name ?a ?n ''private'' index)) [0..<n_private]"
    by blast
  from import_public_subnets_result [OF 2] p1 obtain z and pub :: "string list" and pubs where
    z: "Settings_get AvailabilityZonesSettings ?n = Inr (VList z)"
    and pub: "Settings_get PublicSubnetCidrSettings ?n = Inr (VList pub)"
    and pubs: "import_subnets ?a ?n ''public'' (ps_region p) [0..<length pub] (Cycle z 0) = Inr pubs"
    and p2: "p2 = p1\<lparr>ps_public_subnets := pubs\<rparr>"
    by auto
  from import_private_subnets_result [OF 3] p1 p2 obtain z' and priv :: "string list" and privs where
    z': "Settings_get AvailabilityZonesSettings ?n = Inr (VList z')"
    and priv: "Settings_get PrivateSubnetCidrSettings ?n = Inr (VList priv)"
    and privs: "import_subnets ?a ?n ''private'' (ps_region p) [0..<length priv] (Cycle z' 0) = Inr privs"
    and p': "p' = p2\<lparr>ps_private_subnets := privs\<rparr>"
    by auto
  from g pub priv len have n: "n_public = length pub" "n_private = length priv"
    by auto
  from imported_subnet_names [OF z pubs] imported_subnet_names [OF z' privs] pub priv n v
  show ?thesis
    by (simp add: p1 p2 p' comp_def)
qed

lemma nat_gateways_total:
  assumes "index + length privs \<le> length eip" and "index + length privs \<le> length pubs"
  shows "\<exists>r. nat_gateways name eip pubs index privs acc = Inr r"
  using assms by (induction privs arbitrary: index acc) auto

lemma create_vpc_succeeds:
  assumes "Settings_get VpcCidrSettings (ns_network s) = Inr (VStr c)"
    and "Settings_get AvailabilityZonesSettings (ns_network s) = Inr (VList z)"
  shows "create_vpc s =
           Inr (s\<lparr>ns_vpc := Some \<lparr>vpc_id = resource_prefix s @ ''-vpc'', vpc_cidr = VStr c,
                                  max_azs = length z\<rparr>\<rparr>)"
  using assms by (simp add: create_vpc_def Settings_length_def)

lemma create_public_subnets_succeeds:
  assumes "Settings_get VpcCidrSettings (ns_network s) = Inr (VStr c)"
    and "Settings_get PublicSubnetCidrSettings (ns_network s) = Inr (VList blocks)"
    and "Settings_get AvailabilityZonesSettings (ns_network s) = Inr (VList z)"
    and "z \<noteq> []"
    and "\<forall>b \<in> set blocks. take 2 (split CHR ''.'' b) = take 2 (split CHR ''.'' c)"
    and "ns_vpc s = Some v"
  shows "\<exists>subnets. create_public_subnets s = Inr (s\<lparr>ns_public_subnets := subnets\<rparr>) \<and>
           length subnets = length (ns_public_subnets s) + length blocks"
proof -
  from create_subnets_total [OF assms(4,5)] obtain subnets where
    l: "create_subnets (resource_prefix s @ ''-public-subnet-'') (ns_region s) (Some v) c 0 blocks
          (Cycle z 0) (ns_public_subnets s) = Inr subnets"
    by blast
  from create_subnets_result [OF l]
  have "length subnets = length (ns_public_subnets s) + length blocks" by simp
  moreover from l assms(1-3,6)
  have "create_public_subnets s = Inr (s\<lparr>ns_public_subnets := subnets\<rparr>)"
    by (simp add: create_public_subnets_def Settings_cycle_def)
  ultimately show ?thesis by blast
qed

lemma create_private_subnets_succeeds:
  assumes "Settings_get VpcCidrSettings (ns_network s) = Inr (VStr c)"
    and "Settings_get PrivateSubnetCidrSettings (ns_network s) = Inr (VList blocks)"
    and "Settings_get AvailabilityZonesSettings (ns_network s) = Inr (VList z)"
    and "z \<noteq> []"
    and "\<forall>b \<in> set blocks. take 2 (split CHR ''.'' b) = take 2 (split CHR ''.'' c)"
    and "ns_vpc s = Some v"
  shows "\<exists>subnets. create_private_subnets s = Inr (s\<lparr>ns_private_subnets := subnets\<rparr>) \<and>
           length subnets = length (ns_private_subnets s) + length blocks"
proof -
  from create_subnets_total [OF assms(4,5)] obtain subnets where
    l: "create_subnets (resource_prefix s @ ''-private-subnet-'') (ns_region s) (Some v) c 0 blocks
          (Cycle z 0) (ns_private_subnets s) = Inr subnets"
    by blast
  from create_subnets_result [OF l]
  have "length subnets = length (ns_private_subnets s) + length blocks" by simp
  moreover from l assms(1-3,6)
  have "create_private_subnets s = Inr (s\<lparr>ns_private_subnets := subnets\<rparr>)"
    by (simp add: create_private_subnets_def Settings_cycle_def)
  ultimately show ?thesis by blast
qed

lemma create_internet_gateway_succeeds:
  assumes "ns_vpc s = Some v"
  shows "\<exists>s'. create_internet_gateway s = Inr s' \<and> ns_network s' = ns_network s \<and>
           ns_vpc s' = ns_vpc s \<and> ns_public_subnets s' = ns_public_subnets s \<and>
           ns_private_subnets s' = ns_private_subnets s \<and> ns_eip s' = ns_eip s"
  using assms by (simp add: create_internet_gateway_def)

lemma create_eip_succeeds:
  assumes "Settings_get PrivateSubnetCidrSettings (ns_network s) = Inr (VList priv)"
  shows "\<exists>s'. create_eip s = Inr s' \<and> ns_vpc s' = ns_vpc s \<and>
           ns_public_subnets s' = ns_public_subnets s \<and>
           ns_private_subnets s' = ns_private_subnets s \<and>
           length (ns_eip s') = length (ns_eip s) + length priv"
  using assms by (simp add: create_eip_def)

lemma create_nat_gateways_succeeds:
  assumes "ns_eip s \<noteq> []"
    and "length (ns_private_subnets s) \<le> length (ns_eip s)"
    and "length (ns_private_subnets s) \<le> length (ns_public_subnets s)"
  shows "\<exists>s'. create_nat_gateways s = Inr s' \<and> ns_vpc s' = ns_vpc s \<and>
           ns_private_subnets s' = ns_private_subnets s"
proof -
  from nat_gateways_total [of 0 "ns_private_subnets s" "ns_eip s" "ns_public_subnets s"] assms(2,3)
  obtain g where "nat_gateways (resource_prefix s @ ''-nat-'') (ns_eip s) (ns_public_subnets s) 0
                    (ns_private_subnets s) (ns_nat_gateways s) = Inr g"
    by auto
  with assms(1) show ?thesis by (simp add: create_nat_gateways_def)
qed

lemma create_vpc_endpoints_succeeds:
  assumes "ns_vpc s = Some v" and "ns_private_subnets s \<noteq> []"
  shows "\<exists>s'. create_vpc_endpoints s = Inr s' \<and> ns_vpc s' = ns_vpc s"
  using assms by (simp add: create_vpc_endpoints_def)

lemma deploy_configured:
  assumes tier: "n \<in> {''mainnet'', ''testnet'', ''devnet''}" and a: "a \<noteq> []" and r: "r \<noteq> []"
  shows "\<exists>s outputs. NetworkStack_deploy (NetworkStack a n r) = Inr s \<and>
           NetworkStack_export s = Inr outputs"
proof -
  define s0 where "s0 = NetworkStack a n r"
  have f0: "ns_application s0 = a" "ns_network s0 = n" "ns_region s0 = r"
    "ns_public_subnets s0 = []" "ns_private_subnets s0 = []" "ns_eip s0 = []"
    by (simp_all add: s0_def NetworkStack_def)
  from tier_settings [OF tier] obtain c pub priv z where
    t: "Settings_get VpcCidrSettings n = Inr (VStr c)"
       "Settings_get PublicSubnetCidrSettings n = Inr (VList pub)"
       "Settings_get PrivateSubnetCidrSettings n = Inr (VList priv)"
       "Settings_get AvailabilityZonesSettings n = Inr (VList z)"
    and z: "z \<noteq> []" and ne: "pub \<noteq> []" "priv \<noteq> []" and len: "length priv = length pub"
    and ok: "\<forall>b \<in> set pub \<union> set priv. take 2 (split CHR ''.'' b) = take 2 (split CHR ''.'' c)"
    by blast
  from create_vpc_succeeds [of s0 c z] t f0 obtain v where
    1: "create_vpc s0 = Inr (s0\<lparr>ns_vpc := Some v\<rparr>)" by simp
  define s1 where "s1 = s0\<lparr>ns_vpc := Some v\<rparr>"
  from create_public_subnets_succeeds [of s1 c pub z v] t f0 z ok obtain pubs where
    2: "create_public_subnets s1 = Inr (s1\<lparr>ns_public_subnets := pubs\<rparr>)"
    and lp: "length pubs = length pub"
    by (auto simp: s1_def)
  define s2 where "s2 = s1\<lparr>ns_public_subnets := pubs\<rparr>"
  from create_private_subnets_succeeds [of s2 c priv z v] t f0 z ok obtain privs where
    3: "create_private_subnets s2 = Inr (s2\<lparr>ns_private_subnets := privs\<rparr>)"
    and lq: "length privs = length priv"
    by (auto simp: s1_def s2_def)
  define s3 where "s3 = s2\<lparr>ns_private_subnets := privs\<rparr>"
  have f3: "ns_network s3 = n" "ns_vpc s3 = Some v" "ns_public_subnets s3 = pubs"
    "ns_private_subnets s3 = privs" "ns_eip s3 = []"
    by (simp_all add: s3_def s2_def s1_def f0)
  from create_internet_gateway_succeeds [of s3 v] f3 obtain s4 where
    4: "create_internet_gateway s3 = Inr s4"
    and f4: "ns_network s4 = n" "ns_vpc s4 = Some v" "ns_public_subnets s4 = pubs"
      "ns_private_subnets s4 = privs" "ns_eip s4 = []"
    by auto
  from create_eip_succeeds [of s4 priv] t f4 obtain s5 where
    5: "create_eip s4 = Inr s5"
    and f5: "ns_vpc s5 = Some v" "ns_public_subnets s5 = pubs" "ns_private_subnets s5 = privs"
      "length (ns_eip s5) = length priv"
    by auto
  from f5 ne have eip: "ns_eip s5 \<noteq> []" by auto
  from create_nat_gateways_succeeds [of s5] eip f5 lp lq len obtain s6 where
    6: "create_nat_gateways s5 = Inr s6"
    and f6: "ns_vpc s6 = Some v" "ns_private_subnets s6 = privs"
    by auto
  from lq ne have "privs \<noteq> []" by auto
  with create_vpc_endpoints_succeeds [of s6 v] f6 obtain s7 where
    7: "create_vpc_endpoints s6 = Inr s7" and f7: "ns_vpc s7 = Some v"
    by auto
  from tier have "n \<noteq> []" by auto
  with 1 2 3 4 5 6 7 a r f0
  have "NetworkStack_deploy s0 = Inr s7"
    by (simp add: NetworkStack_deploy_def s1_def [symmetric] s2_def [symmetric]
          s3_def [symmetric])
  moreover from f7 have "\<exists>outputs. NetworkStack_export s7 = Inr outputs"
    by (simp add: NetworkStack_export_def)
  ultimately show ?thesis unfolding s0_def by blast
qed

lemma import_vpc_succeeds:
  assumes "Settings_get VpcCidrSettings (ps_network p) = Inr c"
    and "Settings_get AvailabilityZonesSettings (ps_network p) = Inr (VList z)"
    and "Settings_get PublicSubnetCidrSettings (ps_network p) = Inr (VList pub)"
    and "Settings_get PrivateSubnetCidrSettings (ps_network p) = Inr (VList priv)"
    and "ps_network p \<noteq> []"
  shows "\<exists>p'. import_vpc p = Inr p' \<and> p' = p\<lparr>ps_vpc := ps_vpc p'\<rparr>"
  using assms by (simp add: import_vpc_def)

lemma import_public_subnets_succeeds:
  assumes "Settings_get AvailabilityZonesSettings (ps_network p) = Inr (VList z)"
    and "Settings_get PublicSubnetCidrSettings (ps_network p) = Inr (VList pub)"
    and "z \<noteq> []" and "ps_network p \<noteq> []" and "ps_application p \<noteq> []" and "ps_region p \<noteq> []"
  shows "\<exists>subnets. import_public_subnets p = Inr (p\<lparr>ps_public_subnets := subnets\<rparr>)"
proof -
  from imported_zones [OF assms(3)] obtain subnets where
    "import_subnets (ps_application p) (ps_network p) ''public'' (ps_region p) [0..<length pub]
       (Cycle z 0) = Inr subnets"
    by blast
  with assms
  have "import_public_subnets p = Inr (p\<lparr>ps_public_subnets := subnets\<rparr>)"
    by (simp add: import_public_subnets_def Settings_cycle_def Settings_length_def del: upt_Suc)
  then show ?thesis by blast
qed

lemma import_private_subnets_succeeds:
  assumes "Settings_get AvailabilityZonesSettings (ps_network p) = Inr (VList z)"
    and "Settings_get PrivateSubnetCidrSettings (ps_network p) = Inr (VList priv)"
    and "z \<noteq> []"
  shows "\<exists>subnets. import_private_subnets p = Inr (p\<lparr>ps_private_subnets := subnets\<rparr>)"
proof -
  from imported_zones [OF assms(3)] obtain subnets where
    "import_subnets (ps_application p) (ps_network p) ''private'' (ps_region p) [0..<length priv]
       (Cycle z 0) = Inr subnets"
    by blast
  with assms
  have "import_private_subnets p = Inr (p\<lparr>ps_private_subnets := subnets\<rparr>)"
    by (simp add: import_private_subnets_def Settings_cycle_def Settings_length_def del: upt_Suc)
  then show ?thesis by blast
qed

lemma load_configured:
  assumes tier: "n \<in> {''mainnet'', ''testnet'', ''devnet''}" and a: "a \<noteq> []" and r: "r \<noteq> []"
  shows "\<exists>p. NetworkProtectedStack_load (NetworkProtectedStack a n r) = Inr p"
proof -
  define p0 where "p0 = NetworkProtectedStack a n r"
  have f0: "ps_application p0 = a" "ps_network p0 = n" "ps_region p0 = r"
    by (simp_all add: p0_def NetworkProtectedStack_def)
  from tier have n: "n \<noteq> []" by auto
  from tier_settings [OF tier] obtain c pub priv z where
    t: "Settings_get VpcCidrSettings n = Inr (VStr c)"
       "Settings_get PublicSubnetCidrSettings n = Inr (VList pub)"
       "Settings_get PrivateSubnetCidrSettings n = Inr (VList priv)"
       "Settings_get AvailabilityZonesSettings n = Inr (VList z)"
    and z: "z \<noteq> []"
    by blast
  from import_vpc_succeeds [of p0 "VStr c" z pub priv] t f0 n obtain v where
    1: "import_vpc p0 = Inr (p0\<lparr>ps_vpc := v\<rparr>)" by auto
  define p1 where "p1 = p0\<lparr>ps_vpc := v\<rparr>"
  from import_public_subnets_succeeds [of p1 z pub] t f0 z n a r obtain pubs where
    2: "import_public_subnets p1 = Inr (p1\<lparr>ps_public_subnets := pubs\<rparr>)"
    by (auto simp: p1_def)
  define p2 where "p2 = p1\<lparr>ps_public_subnets := pubs\<rparr>"
  from import_private_subnets_succeeds [of p2 z priv] t f0 z obtain privs where
    3: "import_private_subnets p2 = Inr (p2\<lparr>ps_private_subnets := privs\<rparr>)"
    by (auto simp: p1_def p2_def)
  from 1 2 3 a r n f0
  have "NetworkProtectedStack_load p0 = Inr (p2\<lparr>ps_private_subnets := privs\<rparr>)"
    by (simp add: NetworkProtectedStack_load_def p1_def [symmetric] p2_def [symmetric])
  then show ?thesis unfolding p0_def by blast
qed

lemma length_of_names:
  assumes "map f xs = map g [0..<k]"
  shows "length xs = k"
  using arg_cong [OF assms, of length] by simp

lemma names_agree:
  assumes d: "NetworkStack_deploy (NetworkStack a n r) = Inr s"
    and e: "NetworkStack_export s = Inr outputs"
    and l: "NetworkProtectedStack_load (NetworkProtectedStack a n r') = Inr p"
  shows "set (map export_name outputs) = set (imported_names p) \<and>
         (\<exists>v pub priv.
            ps_vpc p = Some v \<and>
            Settings_get PublicSubnetCidrSettings n = Inr (VList pub) \<and>
            Settings_get PrivateSubnetCidrSettings n = Inr (VList priv) \<and>
            length (iv_public_subnet_ids v) = length pub \<and>
            length (iv_private_subnet_ids v) = length priv \<and>
            length (ps_public_subnets p) = length pub \<and>
            length (ps_private_subnets p) = length priv \<and>
            length outputs = 1 + length pub + length priv)"
proof -
  have s0: "ns_application (NetworkStack a n r) = a" "ns_network (NetworkStack a n r) = n"
    "ns_public_subnets (NetworkStack a n r) = []" "ns_private_subnets (NetworkStack a n r) = []"
    by (simp_all add: NetworkStack_def)
  have p0: "ps_application (NetworkProtectedStack a n r') = a"
    "ps_network (NetworkProtectedStack a n r') = n"
    by (simp_all add: NetworkProtectedStack_def)
  from deploy_frame [OF d] s0 obtain pub priv where
    fs: "ns_application s = a" "ns_network s = n"
    and g: "Settings_get PublicSubnetCidrSettings n = Inr (VList pub)"
      "Settings_get PrivateSubnetCidrSettings n = Inr (VList priv)"
    and ls: "length (ns_public_subnets s) = length pub" "length (ns_private_subnets s) = length priv"
    by auto
  from export_names [OF e] fs ls
  have out: "map export_name outputs =
      (names_prefix a n @ ''::vpc::id'') #
      map (subnet_export_name a n ''public'') [0..<length pub] @
      map (subnet_export_name a n ''private'') [0..<length priv]"
    by simp
  from load_names [OF l] p0 g obtain v where
    v: "ps_vpc p = Some v"
    and i: "import_name (iv_vpc_id v) = names_prefix a n @ ''::vpc::id''"
      "map import_name (iv_public_subnet_ids v) = map (subnet_export_name a n ''public'') [0..<length pub]"
      "map import_name (iv_private_subnet_ids v) = map (subnet_export_name a n ''private'') [0..<length priv]"
      "map (\<lambda>sn. import_name (is_subnet_id sn)) (ps_public_subnets p) =
         map (subnet_export_name a n ''public'') [0..<length pub]"
      "map (\<lambda>sn. import_name (is_subnet_id sn)) (ps_private_subnets p) =
         map (subnet_export_name a n ''private'') [0..<length priv]"
    by auto
  from v i have "imported_names p =
      (names_prefix a n @ ''::vpc::id'') #
      map (subnet_export_name a n ''public'') [0..<length pub] @
      map (subnet_export_name a n ''private'') [0..<length priv] @
      map (subnet_export_name a n ''public'') [0..<length pub] @
      map (subnet_export_name a n ''private'') [0..<length priv]"
    by (simp add: imported_names_def)
  with out have sets: "set (map export_name outputs) = set (imported_names p)"
    by (simp only: set_append set_simps) blast
  from arg_cong [OF out, of length] have lo: "length outputs = 1 + length pub + length priv"
    by simp
  from i(2-5) have
    "length (iv_public_subnet_ids v) = length pub" "length (iv_private_subnet_ids v) = length priv"
    "length (ps_public_subnets p) = length pub" "length (ps_private_subnets p) = length priv"
    by (auto dest: length_of_names)
  with sets v g lo show ?thesis by blast
qed

text \<open>
  C4. For an application \<open>a\<close> and a network \<open>n\<close>: when the network stack deploys and
  exports and a network-protected stack loads, the set of the exported names (the
  VPC's, and one per public and per private subnet, numbered from 1) is the set of
  the names the load imports, and the numbers of imported public and private subnet
  identifiers are the lengths of the configured public and private block lists of
  \<open>n\<close>. For the three configured networks, with a non-empty application name and
  region, all three steps do succeed.
\<close>

theorem export_import_names:
  "(NetworkStack_deploy (NetworkStack a n r) = Inr s \<and>
    NetworkStack_export s = Inr outputs \<and>
    NetworkProtectedStack_load (NetworkProtectedStack a n r') = Inr p \<longrightarrow>
      set (map export_name outputs) = set (imported_names p) \<and>
      (\<exists>v pub priv.
         ps_vpc p = Some v \<and>
         Settings_get PublicSubnetCidrSettings n = Inr (VList pub) \<and>
         Settings_get PrivateSubnetCidrSettings n = Inr (VList priv) \<and>
         length (iv_public_subnet_ids v) = length pub \<and>
         length (iv_private_subnet_ids v) = length priv \<and>
         length (ps_public_subnets p) = length pub \<and>
         length (ps_private_subnets p) = length priv \<and>
         length outputs = 1 + length pub + length priv)) \<and>
   (n \<in> {''mainnet'', ''testnet'', ''devnet''} \<and> a \<noteq> [] \<and> r \<noteq> [] \<and> r' \<noteq> [] \<longrightarrow>
      (\<exists>deployed published loaded.
         NetworkStack_deploy (NetworkStack a n r) = Inr deployed \<and>
         NetworkStack_export deployed = Inr published \<and>
         NetworkProtectedStack_load (NetworkProtectedStack a n r') = Inr loaded))"
  using names_agree [of a n r s outputs r' p] deploy_configured [of n a r]
    load_configured [of n a r']
  by blast

theorem export_import_names_witness:
  "\<exists>deployed published loaded.
     NetworkStack_deploy (NetworkStack ''shop'' ''mainnet'' ''us-west-2'') = Inr deployed \<and>
     NetworkStack_export deployed = Inr published \<and>
     NetworkProtectedStack_load (NetworkProtectedStack ''shop'' ''mainnet'' ''us-west-2'')
       = Inr loaded \<and>
     set (map export_name published) = set (imported_names loaded) \<and>
     length published = 7"
proof -
  have tier: "''mainnet'' \<in> {''mainnet'', ''testnet'', ''devnet''} \<and> ''shop'' \<noteq> [] \<and>
      ''us-west-2'' \<noteq> [] \<and> ''us-west-2'' \<noteq> []"
    by simp
  from export_import_names [of "''shop''" "''mainnet''" "''us-west-2''" _ _ "''us-west-2''",
      THEN conjunct2, THEN mp, OF tier]
  obtain deployed published loaded where
    ok: "NetworkStack_deploy (NetworkStack ''shop'' ''mainnet'' ''us-west-2'') = Inr deployed \<and>
      NetworkStack_export deployed = Inr published \<and>
      NetworkProtectedStack_load (NetworkProtectedStack ''shop'' ''mainnet'' ''us-west-2'')
        = Inr loaded"
    by blast
  from export_import_names [THEN conjunct1, THEN mp, OF ok] obtain pub priv where
    names: "set (map export_name published) = set (imported_names loaded)"
    and g: "Settings_get PublicSubnetCidrSettings ''mainnet'' = Inr (VList pub)"
      "Settings_get PrivateSubnetCidrSettings ''mainnet'' = Inr (VList priv)"
    and n: "length published = 1 + length pub + length priv"
    by blast
  from g have "length pub = 3" "length priv = 3"
    by (auto simp: settings_simps)
  with n have "length published = 7" by simp
  with ok names show ?thesis by blast
qed

section \<open>The Redis database of an environment\<close>

lemma digit_chars: "d < 10 \<Longrightarrow> digit d \<in> set ''0123456789''"
  unfolding digit_def by (rule nth_mem) simp

lemma digit_0: "[digit 0] = ''0''"
  by (simp add: digit_def)

lemma last_char_str_nat: "last_char (str_nat n) = Inr [digit (n mod 10)]"
  by (subst str_nat.simps) (simp add: last_char_def)


lemma redis_db_resolved:
  assumes "network \<noteq> []" and "environment \<noteq> []"
    and "Settings_get SharedCacheDatabaseSettings network = Inr shared"
  shows "get_redis_db sha256 network environment =
           Inr (if truthy shared then ''0'' else [digit (sha256 environment mod 10 ^ 8 mod 10)])"
  using assms by (simp add: get_redis_db_def last_char_str_nat)

lemma redis_db_unresolved:
  assumes "network \<noteq> []" and "environment \<noteq> []"
    and "Settings_get SharedCacheDatabaseSettings network = Inl e"
  shows "get_redis_db sha256 network environment = Inl e"
  using assms by (simp add: get_redis_db_def)

text \<open>
  C10, as stated, fails: for the non-empty network name \<open>staging\<close>, which the shared
  cache settings do not define and for which they have no default, the function raises
  \<open>KeyError\<close> instead of returning a digit.
\<close>

theorem redis_db_counterexample:
  "''staging'' \<noteq> [] \<and> ''demo'' \<noteq> [] \<and>
   get_redis_db toy_digest ''staging'' ''demo'' =
     Inl (KeyError ''SharedCacheDatabaseSettings'' ''staging'')"
  by (simp add: get_redis_db_def Settings_get_def hasattr_def getattr_def
        SharedCacheDatabaseSettings_def settings_def Settings_namespace_def)

text \<open>
  C10, amended. For every non-empty environment and every non-empty network name that
  the shared cache settings resolve to a value, \<open>get_redis_db\<close> returns a string of
  one decimal digit: \<open>0\<close> when the value is truthy, and otherwise the last decimal digit
  of the digest of the environment modulo \<open>10 ^ 8\<close>, which depends on the environment
  alone. So it returns \<open>0\<close> for \<open>mainnet\<close> and \<open>testnet\<close> and the digit of the digest for
  \<open>devnet\<close>. For a network name the settings do not resolve it raises their
  \<open>KeyError\<close>.
\<close>

theorem redis_db_digit:
  "(network \<noteq> [] \<and> environment \<noteq> [] \<and>
    Settings_get SharedCacheDatabaseSettings network = Inr shared \<longrightarrow>
      (\<exists>c \<in> set ''0123456789''. get_redis_db sha256 network environment = Inr [c]) \<and>
      (truthy shared \<longrightarrow> get_redis_db sha256 network environment = Inr ''0'') \<and>
      (\<not> truthy shared \<longrightarrow>
         get_redis_db sha256 network environment =
           Inr [digit (sha256 environment mod 10 ^ 8 mod 10)])) \<and>
   (network \<noteq> [] \<and> environment \<noteq> [] \<and>
    Settings_get SharedCacheDatabaseSettings network = Inl e \<longrightarrow>
      get_redis_db sha256 network environment = Inl e) \<and>
   (environment \<noteq> [] \<longrightarrow>
      get_redis_db sha256 ''mainnet'' environment = Inr ''0'' \<and>
      get_redis_db sha256 ''testnet'' environment = Inr ''0'' \<and>
      get_redis_db sha256 ''devnet'' environment =
        Inr [digit (sha256 environment mod 10 ^ 8 mod 10)])"
proof (intro conjI impI)
  assume h: "network \<noteq> [] \<and> environment \<noteq> [] \<and>
    Settings_get SharedCacheDatabaseSettings network = Inr shared"
  then have r: "get_redis_db sha256 network environment =
      Inr (if truthy shared then ''0'' else [digit (sha256 environment mod 10 ^ 8 mod 10)])"
    by (simp add: redis_db_resolved)
  have "digit (sha256 environment mod 10 ^ 8 mod 10) \<in> set ''0123456789''"
    by (rule digit_chars) simp
  with r show "\<exists>c \<in> set ''0123456789''. get_redis_db sha256 network environment = Inr [c]"
    by (cases "truthy shared") auto
  {
    assume "truthy shared"
    with r show "get_redis_db sha256 network environment = Inr ''0''" by simp
  }
  {
    assume "\<not> truthy shared"
    with r show "get_redis_db sha256 network environment =
        Inr [digit (sha256 environment mod 10 ^ 8 mod 10)]" by simp
  }
next
  assume "network \<noteq> [] \<and> environment \<noteq> [] \<and>
    Settings_get SharedCacheDatabaseSettings network = Inl e"
  then show "get_redis_db sha256 network environment = Inl e"
    by (simp add: redis_db_unresolved)
next
  assume env: "environment \<noteq> []"
  have m: "Settings_get SharedCacheDatabaseSettings ''mainnet'' = Inr (VBool True)"
    and t: "Settings_get SharedCacheDatabaseSettings ''testnet'' = Inr (VBool True)"
    and d: "Settings_get SharedCacheDatabaseSettings ''devnet'' = Inr (VBool False)"
    by (simp_all add: Settings_get_def hasattr_def getattr_def SharedCacheDatabaseSettings_def
          settings_def)
  from env m show "get_redis_db sha256 ''mainnet'' environment = Inr ''0''"
    by (simp add: redis_db_resolved)
  from env t show "get_redis_db sha256 ''testnet'' environment = Inr ''0''"
    by (simp add: redis_db_resolved)
  from env d show "get_redis_db sha256 ''devnet'' environment =
      Inr [digit (sha256 environment mod 10 ^ 8 mod 10)]"
    by (simp add: redis_db_resolved)
qed

theorem redis_db_digit_witness:
  "Settings_get SharedCacheDatabaseSettings ''devnet'' = Inr (VBool False) \<and>
   get_redis_db toy_digest ''devnet'' ''demo'' = Inr ''4'' \<and>
   get_redis_db toy_digest ''mainnet'' ''demo'' = Inr ''0'' \<and>
   Settings_get SharedCacheDatabaseSettings ''staging''
     = Inl (KeyError ''SharedCacheDatabaseSettings'' ''staging'') \<and>
   get_redis_db toy_digest ''staging'' ''demo''
     = Inl (KeyError ''SharedCacheDatabaseSettings'' ''staging'')"
proof -
  have d: "Settings_get SharedCacheDatabaseSettings ''devnet'' = Inr (VBool False)"
    and m: "Settings_get SharedCacheDatabaseSettings ''mainnet'' = Inr (VBool True)"
    and s: "Settings_get SharedCacheDatabaseSettings ''staging''
              = Inl (KeyError ''SharedCacheDatabaseSettings'' ''staging'')"
    by (simp_all add: Settings_get_def hasattr_def getattr_def SharedCacheDatabaseSettings_def
          settings_def Settings_namespace_def)
  have dg: "[digit (toy_digest ''demo'' mod 10 ^ 8 mod 10)] = ''4''"
    by (simp add: toy_digest_def digit_def)
  from redis_db_digit [of "''devnet''" "''demo''" "VBool False" toy_digest] d dg
  have 1: "get_redis_db toy_digest ''devnet'' ''demo'' = Inr ''4''" by simp
  from redis_db_digit [of "''mainnet''" "''demo''" "VBool True" toy_digest] m
  have 2: "get_redis_db toy_digest ''mainnet'' ''demo'' = Inr ''0''" by simp
  from redis_db_digit [of "''staging''" "''demo''" _ toy_digest
      "KeyError ''SharedCacheDatabaseSettings'' ''staging''"] s
  have 3: "get_redis_db toy_digest ''staging'' ''demo''
     = Inl (KeyError ''SharedCacheDatabaseSettings'' ''staging'')" by simp
  from d 1 2 s 3 show ?thesis by blast
qed

section \<open>Validation and recovery\<close>














lemma counted_none:
  assumes "Settings_get DatabaseSnapshotName network = Inl e"
  shows "snd (snapshot_exists_counted network service calls) = calls"
  using assms by (simp add: snapshot_exists_counted_def)



end
